theory Spec2Isabelle
  imports Main "HOL-Library.Signed_Division"
begin

text \<open>
  The session engine of Parrot Terminal (\<^verbatim>\<open>terminal.h\<close>, \<^verbatim>\<open>terminal.c\<close>): the
  command queue, the history buffer, the terminal manager's close operation and the
  execution of a submitted command, as functions on records of the program's
  structures. A C \<^verbatim>\<open>int\<close> is an \<open>int\<close>: the queue's fields stay within \<open>0..10\<close>
  (\<open>queue_wf\<close>), the terminal indices within the eight allocated terminals, and the
  history count would need \<open>2^31\<close> lines to overflow. What the operating system
  answers is a parameter (section ``The operating system'').
\<close>

section \<open>Constants of terminal.h\<close>

definition MAX_CMD_INPUT :: nat where
  "MAX_CMD_INPUT = 512"

definition COMMAND_QUEUE_SIZE :: int where
  "COMMAND_QUEUE_SIZE = 10"

definition QUEUE_NORMAL :: int where
  "QUEUE_NORMAL = 0"

definition QUEUE_FULL :: int where
  "QUEUE_FULL = 1"

section \<open>C strings\<close>

text \<open>
  A C string is modelled by the list of its characters before the terminating NUL.
  The idiom \<^verbatim>\<open>strncpy(dst, src, n - 1); dst[n - 1] = '\0';\<close> leaves in \<open>dst\<close> the
  first \<open>n - 1\<close> characters of \<open>src\<close>.
\<close>

definition strncpy_term :: "nat \<Rightarrow> string \<Rightarrow> string" where
  "strncpy_term n src = take (n - 1) src"

section \<open>The command queue (terminal.c, lines 26 to 100)\<close>

text \<open>
  \<^verbatim>\<open>struct CommandQueue\<close>: the ten slots \<^verbatim>\<open>commands[10][512]\<close> are a list of ten
  strings, the four \<^verbatim>\<open>int\<close> fields are integers. C's \<^verbatim>\<open>%\<close> truncates towards zero
  (\<open>smod\<close>). The slot indices are converted with \<open>nat\<close>; an index outside \<open>0..9\<close> is
  undefined behaviour in C, and \<open>queue_wf\<close> below, which every reachable queue
  satisfies, excludes it.
\<close>

record CommandQueue =
  commands :: "string list"
  count :: int
  head :: int
  tail :: int
  state :: int

definition init_command_queue :: CommandQueue where
  "init_command_queue =
     \<lparr>commands = replicate (nat COMMAND_QUEUE_SIZE) [],
      count = 0, head = 0, tail = 0, state = QUEUE_NORMAL\<rparr>"

definition update_queue_state :: "CommandQueue \<Rightarrow> CommandQueue" where
  "update_queue_state queue =
     queue\<lparr>state := (if count queue \<ge> COMMAND_QUEUE_SIZE then QUEUE_FULL else QUEUE_NORMAL)\<rparr>"

definition is_queue_full :: "CommandQueue \<Rightarrow> bool" where
  "is_queue_full queue \<longleftrightarrow> count queue \<ge> COMMAND_QUEUE_SIZE"

definition is_queue_empty :: "CommandQueue \<Rightarrow> bool" where
  "is_queue_empty queue \<longleftrightarrow> count queue = 0"

text \<open>\<open>add_to_queue\<close> returns the C return value (1 or 0) with the updated queue.\<close>

definition add_to_queue :: "CommandQueue \<Rightarrow> string \<Rightarrow> int \<times> CommandQueue" where
  "add_to_queue queue cmd =
     (if is_queue_full queue then (0, queue\<lparr>state := QUEUE_FULL\<rparr>)
      else
        let q1 = queue\<lparr>commands :=
                   (commands queue)[nat (tail queue) := strncpy_term MAX_CMD_INPUT cmd]\<rparr>;
            q2 = q1\<lparr>tail := (tail q1 + 1) smod COMMAND_QUEUE_SIZE\<rparr>;
            q3 = q2\<lparr>count := count q2 + 1\<rparr>
        in (1, update_queue_state q3))"

text \<open>
  \<open>get_from_queue\<close> returns \<open>None\<close> where the C function returns 0 and leaves the
  output buffer alone, and the copied command with the updated queue where it returns 1.
\<close>

definition get_from_queue :: "CommandQueue \<Rightarrow> (string \<times> CommandQueue) option" where
  "get_from_queue queue =
     (if is_queue_empty queue then None
      else
        let cmd = strncpy_term MAX_CMD_INPUT (commands queue ! nat (head queue));
            q1 = queue\<lparr>head := (head queue + 1) smod COMMAND_QUEUE_SIZE\<rparr>;
            q2 = q1\<lparr>count := count q1 - 1\<rparr>
        in Some (cmd, update_queue_state q2))"

subsection \<open>Sequences of queue operations\<close>

datatype queue_op = Enqueue string | Dequeue

fun apply_queue_op :: "CommandQueue \<Rightarrow> queue_op \<Rightarrow> CommandQueue" where
  "apply_queue_op q (Enqueue cmd) = snd (add_to_queue q cmd)"
| "apply_queue_op q Dequeue = (case get_from_queue q of None \<Rightarrow> q | Some (cmd, q') \<Rightarrow> q')"

definition run_queue_ops :: "CommandQueue \<Rightarrow> queue_op list \<Rightarrow> CommandQueue" where
  "run_queue_ops q ops = foldl apply_queue_op q ops"

text \<open>The invariant of the counter and the derived state.\<close>

definition queue_count_inv :: "CommandQueue \<Rightarrow> bool" where
  "queue_count_inv q \<longleftrightarrow>
     0 \<le> count q \<and> count q \<le> 10 \<and> (state q = QUEUE_FULL \<longleftrightarrow> count q = 10)"

text \<open>
  Well-formed queues: ten slots, each holding a string that fits its 512 bytes, indices
  in range, the tail \<open>count\<close> slots after the head, and the state derived from the
  count.
\<close>

definition queue_wf :: "CommandQueue \<Rightarrow> bool" where
  "queue_wf q \<longleftrightarrow>
     length (commands q) = 10 \<and> list_all (\<lambda>s. length s \<le> 511) (commands q) \<and>
     0 \<le> head q \<and> head q < 10 \<and> 0 \<le> count q \<and> count q \<le> 10 \<and>
     tail q = (head q + count q) mod 10 \<and>
     state q = (if count q \<ge> 10 then QUEUE_FULL else QUEUE_NORMAL)"

text \<open>The pending commands, oldest first.\<close>

definition queue_contents :: "CommandQueue \<Rightarrow> string list" where
  "queue_contents q =
     map (\<lambda>i. commands q ! nat ((head q + int i) mod 10)) [0..<nat (count q)]"

text \<open>
  The bounded first-in-first-out list the queue is meant to implement: an enqueue on
  fewer than ten entries appends the command cut to 511 characters, a dequeue removes
  the oldest entry.
\<close>

fun fifo_op :: "string list \<Rightarrow> queue_op \<Rightarrow> string list" where
  "fifo_op xs (Enqueue cmd) = (if length xs < 10 then xs @ [take 511 cmd] else xs)"
| "fifo_op xs Dequeue = tl xs"

fun is_dequeue :: "queue_op \<Rightarrow> bool" where
  "is_dequeue Dequeue = True"
| "is_dequeue (Enqueue cmd) = False"

section \<open>The history buffer (terminal.c, lines 574 to 624)\<close>

definition HISTORY_TYPE_NORMAL :: int where
  "HISTORY_TYPE_NORMAL = 0"

definition HISTORY_TYPE_COMMAND :: int where
  "HISTORY_TYPE_COMMAND = 1"

definition HISTORY_TYPE_RAW :: int where
  "HISTORY_TYPE_RAW = 2"

text \<open>
  \<^verbatim>\<open>struct HistoryBuffer\<close>. The arrays \<^verbatim>\<open>lines\<close> and \<^verbatim>\<open>line_types\<close> have
  \<^verbatim>\<open>capacity\<close> cells of which the first \<^verbatim>\<open>count\<close> are initialised; the lists hold the
  initialised cells. The field \<^verbatim>\<open>count\<close> is \<open>hcount\<close> here (the queue has a \<open>count\<close>
  too). The array \<^verbatim>\<open>timestamps\<close> is left out: the program writes \<^verbatim>\<open>time(NULL)\<close> into
  it and never reads it.
\<close>

record HistoryBuffer =
  lines :: "string list"
  line_types :: "int list"
  hcount :: int
  capacity :: int
  scroll_offset :: int

text \<open>The ways the process terminates itself: \<^verbatim>\<open>exit(code)\<close>.\<close>

datatype fatal = Exit int

text \<open>
  \<open>add_history_line\<close>, with the global \<^verbatim>\<open>line_break_enabled\<close> and the outcome of the
  three \<^verbatim>\<open>realloc\<close> calls (asked for the doubled capacity) as parameters. Where the
  reallocation fails the program prints an error and calls \<^verbatim>\<open>exit(3)\<close>. The results of
  \<^verbatim>\<open>strdup\<close> and \<^verbatim>\<open>malloc\<close> are used unchecked by the source; they are taken to
  succeed.
\<close>

definition collapse_line_breaks :: "string \<Rightarrow> string" where
  "collapse_line_breaks text = map (\<lambda>c. if c = CHR 0x0A then CHR '' '' else c) text"

definition add_history_line ::
  "int \<Rightarrow> (int \<Rightarrow> bool) \<Rightarrow> HistoryBuffer \<Rightarrow> string \<Rightarrow> int \<Rightarrow> fatal + HistoryBuffer" where
  "add_history_line line_break_enabled realloc_ok buf text line_type =
     (if hcount buf \<ge> capacity buf \<and> \<not> realloc_ok (capacity buf * 2) then Inl (Exit 3)
      else
        let buf1 = (if hcount buf \<ge> capacity buf then buf\<lparr>capacity := capacity buf * 2\<rparr>
                    else buf);
            stored = (if line_break_enabled \<noteq> 0 then text else collapse_line_breaks text)
        in Inr (buf1\<lparr>lines := take (nat (hcount buf1)) (lines buf1) @ [stored],
                      line_types := take (nat (hcount buf1)) (line_types buf1) @ [line_type],
                      hcount := hcount buf1 + 1\<rparr>))"

definition init_history_buffer :: HistoryBuffer where
  "init_history_buffer =
     \<lparr>lines = [], line_types = [], hcount = 0, capacity = 500, scroll_offset = 0\<rparr>"

definition hist_wf :: "HistoryBuffer \<Rightarrow> bool" where
  "hist_wf buf \<longleftrightarrow>
     0 \<le> hcount buf \<and> length (lines buf) = nat (hcount buf) \<and>
     length (line_types buf) = nat (hcount buf)"

section \<open>The input state (terminal.c, lines 643 to 674)\<close>

definition MAX_CMD_HISTORY :: int where
  "MAX_CMD_HISTORY = 256"

text \<open>
  \<^verbatim>\<open>struct InputState\<close>. The character buffer \<^verbatim>\<open>input\<close> is \<open>input_text\<close> here (the
  terminal has a field \<open>input\<close>); \<open>cmd_history\<close> holds the entries in use.
\<close>

record InputState =
  input_text :: string
  cursor_pos :: int
  input_len :: int
  display_start :: int
  cmd_history :: "string list"
  cmd_history_count :: int
  cmd_history_pos :: int
  is_locked :: int

definition init_input_state :: InputState where
  "init_input_state =
     \<lparr>input_text = [], cursor_pos = 0, input_len = 0, display_start = 0, cmd_history = [],
      cmd_history_count = 0, cmd_history_pos = - 1, is_locked = 0\<rparr>"

definition add_to_cmd_history :: "InputState \<Rightarrow> string \<Rightarrow> InputState" where
  "add_to_cmd_history inp cmd =
     (let inp1 = (if cmd_history_count inp \<ge> MAX_CMD_HISTORY
                  then inp\<lparr>cmd_history := tl (cmd_history inp),
                           cmd_history_count := cmd_history_count inp - 1\<rparr>
                  else inp);
          inp2 = inp1\<lparr>cmd_history :=
                   take (nat (cmd_history_count inp1)) (cmd_history inp1) @ [cmd]\<rparr>;
          inp3 = inp2\<lparr>cmd_history_count := cmd_history_count inp2 + 1\<rparr>
      in inp3\<lparr>cmd_history_pos := cmd_history_count inp3\<rparr>)"

section \<open>Terminals and the terminal manager\<close>

definition CMD_STATE_READY :: int where
  "CMD_STATE_READY = 0"

definition CMD_STATE_RUNNING :: int where
  "CMD_STATE_RUNNING = 1"

text \<open>
  \<^verbatim>\<open>struct Terminal\<close>. The field \<^verbatim>\<open>id\<close> is \<open>term_id\<close> here (\<open>id\<close> is the identity
  function of HOL). The pane geometry and the curses window are left out: no function
  of the program reads or writes them.
\<close>

record Terminal =
  history :: HistoryBuffer
  input :: InputState
  term_id :: int
  split_with :: int
  split_direction :: int
  current_directory :: string
  cmd_queue :: CommandQueue
  current_process :: int
  cmd_state :: int

text \<open>
  \<^verbatim>\<open>struct TerminalManager\<close>: \<open>terminals\<close> holds the cells of the allocated array that
  have been written, of which the first \<open>terminal_count\<close> are the open terminals.
\<close>

record TerminalManager =
  terminals :: "Terminal list"
  terminal_count :: int
  active_terminal :: int
  split_layout :: int

section \<open>The operating system\<close>

text \<open>
  What the program asks of the operating system, as a record of functions on a state
  \<open>'w\<close> of the world outside the program.
  \<^item> \<open>os_realloc_ok n\<close>: the allocator can grow the history arrays to \<open>n\<close> entries.
  \<^item> \<open>os_getenv_HOME\<close>: \<^verbatim>\<open>getenv("HOME")\<close>.
  \<^item> \<open>os_chdir dir w\<close>: \<^verbatim>\<open>chdir(dir)\<close>; \<open>None\<close> on success, \<^verbatim>\<open>strerror(errno)\<close>
    on failure, with the world afterwards.
  \<^item> \<open>os_getcwd\<close>: the string \<^verbatim>\<open>getcwd\<close> leaves in the buffer.
  \<^item> \<open>os_clock\<close>: the local time printed by \<^verbatim>\<open>strftime\<close> with \<^verbatim>\<open>"[%H:%M:%S]"\<close>.
  \<^item> \<open>os_system cmd w\<close>: the value returned by \<^verbatim>\<open>system(cmd)\<close>.
  \<^item> \<open>os_spawn cmd w\<close>: what the parent sees of \<^verbatim>\<open>pipe\<close>, \<^verbatim>\<open>fork\<close>, \<^verbatim>\<open>fdopen\<close>,
    the \<^verbatim>\<open>read\<close> calls and \<^verbatim>\<open>waitpid\<close> for the child running
    \<^verbatim>\<open>/bin/sh -c cmd\<close> with both output streams on the pipe.
  \<^item> \<open>os_kill pid sig w\<close>: \<^verbatim>\<open>kill(pid, sig)\<close>.
\<close>

datatype spawn =
    PipeFailed string
  | ForkFailed string
  | Spawned int bool "string list" int

text \<open>
  \<open>PipeFailed e\<close> and \<open>ForkFailed e\<close> carry \<^verbatim>\<open>strerror(errno)\<close>. \<open>Spawned pid
  fdopen_ok chunks status\<close>: the child's process id (positive in the parent), whether
  \<^verbatim>\<open>fdopen\<close> returned a stream, the bytes returned by each \<^verbatim>\<open>read\<close> (at most 1023 a
  call) before the one that returns 0 or fails, and the status stored by \<^verbatim>\<open>waitpid\<close>.
\<close>

record 'w os =
  os_realloc_ok :: "int \<Rightarrow> bool"
  os_getenv_HOME :: "'w \<Rightarrow> string option"
  os_chdir :: "string \<Rightarrow> 'w \<Rightarrow> string option \<times> 'w"
  os_getcwd :: "'w \<Rightarrow> string"
  os_clock :: "'w \<Rightarrow> string"
  os_system :: "string \<Rightarrow> 'w \<Rightarrow> int \<times> 'w"
  os_spawn :: "string \<Rightarrow> 'w \<Rightarrow> spawn \<times> 'w"
  os_kill :: "int \<Rightarrow> int \<Rightarrow> 'w \<Rightarrow> 'w"

definition SIGINT :: int where
  "SIGINT = 2"

text \<open>\<^verbatim>\<open>PATH_MAX\<close> of \<^verbatim>\<open><limits.h>\<close> on Linux.\<close>

definition PATH_MAX :: nat where
  "PATH_MAX = 4096"

text \<open>
  The status macros of \<^verbatim>\<open><sys/wait.h>\<close>, as the C library of Linux defines them:
  \<^verbatim>\<open>WTERMSIG(s) = s & 0x7f\<close>, \<^verbatim>\<open>WIFEXITED(s) = (WTERMSIG(s) == 0)\<close>,
  \<^verbatim>\<open>WEXITSTATUS(s) = (s & 0xff00) >> 8\<close> and
  \<^verbatim>\<open>WIFSIGNALED(s) = ((signed char) ((s & 0x7f) + 1) >> 1) > 0\<close>. On \<open>int\<close>,
  \<open>s mod 128\<close> is \<^verbatim>\<open>s & 0x7f\<close> and \<open>s div 256 mod 256\<close> is \<^verbatim>\<open>(s & 0xff00) >> 8\<close>.
\<close>

definition WTERMSIG :: "int \<Rightarrow> int" where
  "WTERMSIG s = s mod 128"

definition WIFEXITED :: "int \<Rightarrow> bool" where
  "WIFEXITED s \<longleftrightarrow> WTERMSIG s = 0"

definition WEXITSTATUS :: "int \<Rightarrow> int" where
  "WEXITSTATUS s = s div 256 mod 256"

definition WIFSIGNALED :: "int \<Rightarrow> bool" where
  "WIFSIGNALED s \<longleftrightarrow> 1 \<le> s mod 128 \<and> s mod 128 \<le> 126"

text \<open>The status \<^verbatim>\<open>waitpid\<close> and \<^verbatim>\<open>system\<close> report for a child that exited with a code.\<close>

definition exit_status :: "int \<Rightarrow> int" where
  "exit_status code = (code mod 256) * 256"

section \<open>Formatting\<close>

text \<open>\<^verbatim>\<open>%d\<close> of \<^verbatim>\<open>snprintf\<close>, and \<^verbatim>\<open>snprintf(buf, n, ...)\<close> cutting the text to \<open>n - 1\<close>.\<close>

fun show_nat :: "nat \<Rightarrow> string" where
  "show_nat n =
     (if n < 10 then [''0123456789'' ! n] else show_nat (n div 10) @ [''0123456789'' ! (n mod 10)])"

definition show_int :: "int \<Rightarrow> string" where
  "show_int i = (if i < 0 then CHR ''-'' # show_nat (nat (- i)) else show_nat (nat i))"

definition snprintf :: "nat \<Rightarrow> string \<Rightarrow> string" where
  "snprintf n text = take (n - 1) text"

declare show_nat.simps [simp del]

section \<open>Logging into the active terminal\<close>

text \<open>
  The functions below start with \<^verbatim>\<open>get_active_terminal()\<close> in the source; here they
  take that terminal as an argument, with the state of the world where they call the
  operating system. Every call site of \<open>execute_command\<close> passes the history and the
  input state of the active terminal, so these two pointers are the fields of the
  same terminal. A result \<open>Inl (Exit n)\<close> is the end of the process.
\<close>

definition log_line :: "'w os \<Rightarrow> int \<Rightarrow> Terminal \<Rightarrow> string \<Rightarrow> int \<Rightarrow> fatal + Terminal" where
  "log_line os lbe t text line_type =
     (case add_history_line lbe (os_realloc_ok os) (history t) text line_type of
        Inl e \<Rightarrow> Inl e
      | Inr h \<Rightarrow> Inr (t\<lparr>history := h\<rparr>))"

fun log_lines :: "'w os \<Rightarrow> int \<Rightarrow> Terminal \<Rightarrow> string list \<Rightarrow> int \<Rightarrow> fatal + Terminal" where
  "log_lines os lbe t [] line_type = Inr t"
| "log_lines os lbe t (text # texts) line_type =
     (case log_line os lbe t text line_type of
        Inl e \<Rightarrow> Inl e
      | Inr t' \<Rightarrow> log_lines os lbe t' texts line_type)"

definition is_command_running :: "Terminal \<Rightarrow> bool" where
  "is_command_running active \<longleftrightarrow> cmd_state active = CMD_STATE_RUNNING"

definition queue_added_msg :: "int \<Rightarrow> string" where
  "queue_added_msg n =
     snprintf 128 (''Command added to queue. Queue size: '' @ show_int n @ ''/'' @
       show_int COMMAND_QUEUE_SIZE)"

definition queue_full_msg :: string where
  "queue_full_msg = ''Command queue is full! Maximum 10 commands allowed.''"

definition add_command_to_queue :: "'w os \<Rightarrow> int \<Rightarrow> string \<Rightarrow> Terminal \<Rightarrow> fatal + Terminal" where
  "add_command_to_queue os lbe cmd active =
     (case add_to_queue (cmd_queue active) cmd of (ok, q) \<Rightarrow>
        let active1 = active\<lparr>cmd_queue := q\<rparr> in
        if ok \<noteq> 0 then
          log_line os lbe active1 (queue_added_msg (count (cmd_queue active1)))
            HISTORY_TYPE_NORMAL
        else
          (case log_line os lbe active1 queue_full_msg HISTORY_TYPE_RAW of
             Inl e \<Rightarrow> Inl e
           | Inr active2 \<Rightarrow> Inr (active2\<lparr>input := (input active2)\<lparr>is_locked := 1\<rparr>\<rparr>)))"

definition stop_current_command ::
  "'w os \<Rightarrow> int \<Rightarrow> Terminal \<times> 'w \<Rightarrow> fatal + Terminal \<times> 'w" where
  "stop_current_command os lbe s =
     (case s of (active, w) \<Rightarrow>
        if cmd_state active = CMD_STATE_RUNNING \<and> current_process active > 0 then
          let w1 = os_kill os (current_process active) SIGINT w in
          (case log_line os lbe active ''Command interrupted (SIGINT sent)'' HISTORY_TYPE_NORMAL of
             Inl e \<Rightarrow> Inl e
           | Inr active1 \<Rightarrow>
               Inr (active1\<lparr>cmd_state := CMD_STATE_READY, current_process := 0\<rparr>, w1))
        else
          (case log_line os lbe active ''No command is currently running'' HISTORY_TYPE_NORMAL of
             Inl e \<Rightarrow> Inl e
           | Inr active1 \<Rightarrow> Inr (active1, w)))"

section \<open>Removing escape codes (terminal.c, lines 176 to 195)\<close>

text \<open>The loop of \<open>strip_escape_codes\<close>, with the flag \<^verbatim>\<open>in_escape\<close> as an argument.\<close>

fun strip_escape_loop :: "bool \<Rightarrow> string \<Rightarrow> string" where
  "strip_escape_loop in_escape [] = []"
| "strip_escape_loop in_escape (c # src) =
     (if c = CHR 0x1B then strip_escape_loop True src
      else if in_escape \<and> c = CHR ''m'' then strip_escape_loop False src
      else if in_escape then strip_escape_loop in_escape src
      else c # strip_escape_loop in_escape src)"

definition strip_escape_codes :: "string \<Rightarrow> string" where
  "strip_escape_codes str = strip_escape_loop False str"

section \<open>Closing the active terminal (terminal.c, lines 513 to 547)\<close>

text \<open>
  The loop that shifts the array to fill the gap, from index \<open>i\<close>; \<open>shifted_terminal\<close>
  is what its body stores in cell \<open>i\<close> (lines 532 to 539).
\<close>

definition shifted_terminal :: "int \<Rightarrow> int \<Rightarrow> Terminal \<Rightarrow> Terminal" where
  "shifted_terminal active_id i t =
     (let t1 = t\<lparr>term_id := i\<rparr> in
      if split_with t1 \<noteq> - 1 \<and> split_with t1 > active_id
      then t1\<lparr>split_with := split_with t1 - 1\<rparr> else t1)"

function shift_terminals :: "int \<Rightarrow> int \<Rightarrow> int \<Rightarrow> Terminal list \<Rightarrow> Terminal list" where
  "shift_terminals active_id cnt i ts =
     (if i < cnt - 1 then
        shift_terminals active_id cnt (i + 1)
          (ts[nat i := shifted_terminal active_id i (ts ! nat (i + 1))])
      else ts)"
  by pat_completeness auto
termination
  by (relation "measure (\<lambda>(active_id, cnt, i, ts). nat (cnt - 1 - i))") auto

declare shift_terminals.simps [simp del]

text \<open>
  \<open>close_current_terminal\<close>. The two \<^verbatim>\<open>free\<close> calls release the closed terminal's
  buffers and change no terminal that stays.
\<close>

definition close_current_terminal ::
  "'w os \<Rightarrow> int \<Rightarrow> TerminalManager \<times> 'w \<Rightarrow> fatal + TerminalManager \<times> 'w" where
  "close_current_terminal os lbe s =
     (case s of (tm, w) \<Rightarrow>
        if terminal_count tm \<le> 1 then Inr (tm, w)
        else
          let active_id = active_terminal tm;
              active = terminals tm ! nat active_id
          in
          (case (if cmd_state active = CMD_STATE_RUNNING
                 then stop_current_command os lbe (active, w) else Inr (active, w)) of
             Inl e \<Rightarrow> Inl e
           | Inr (active1, w1) \<Rightarrow>
               let ts1 = (terminals tm)[nat active_id := active1];
                   partner = split_with (ts1 ! nat active_id);
                   ts2 = (if partner \<noteq> - 1
                          then ts1[nat partner := (ts1 ! nat partner)\<lparr>split_with := - 1\<rparr>]
                          else ts1);
                   ts3 = shift_terminals active_id (terminal_count tm) active_id ts2;
                   tm1 = tm\<lparr>terminals := ts3, terminal_count := terminal_count tm - 1\<rparr>
               in Inr (if active_terminal tm1 \<ge> terminal_count tm1
                       then tm1\<lparr>active_terminal := terminal_count tm1 - 1\<rparr> else tm1, w1)))"

section \<open>Executing a command (terminal.c, lines 963 to 1211)\<close>

definition manual_text :: "string list" where
  "manual_text =
     [''Parrot Terminal Usage:'',
      ''======================'',
      ''Shift+T: Create new terminal'',
      ''Shift+W: Close current terminal'',
      ''Alt+1-9: Switch to terminal 1-9'',
      ''Alt+/-: Switch to next/previous terminal'',
      ''Alt+Arrows: Switch between split panes'',
      ''Arrow Keys: Scroll terminal history'',
      ''Shift+Up/Down: Navigate command history'',
      ''Type 'stop' to interrupt running command'',
      ''Type 'exit' to quit'',
      ''Note: Commands queue automatically when another is running'',
      ''Queue size: 10 commands max'']"

definition interactive_commands :: "string list" where
  "interactive_commands =
     [''vim'', ''nvim'', ''nano'', ''ranger'', ''parrot'', ''htop'', ''top'', ''sudo'', ''ssh'',
      ''man'', ''less'', ''more'']"

text \<open>The loop over the allow-list: \<^verbatim>\<open>strcmp\<close> for equality, \<^verbatim>\<open>strncmp\<close> for a prefix.\<close>

definition is_interactive :: "string \<Rightarrow> bool" where
  "is_interactive cmd \<longleftrightarrow>
     list_ex (\<lambda>ic. cmd = ic \<or> take (length ic) cmd = ic) interactive_commands"

text \<open>
  Lines 1006 to 1033: the directory handed to \<^verbatim>\<open>chdir\<close> for a command that starts with
  \<^verbatim>\<open>"cd "\<close>. \<open>start\<close> skips the leading spaces of \<^verbatim>\<open>clean_dir\<close>; the loop at \<^verbatim>\<open>end\<close>
  cuts trailing spaces and newlines, never the first character of \<open>start\<close>; the cut
  shortens \<^verbatim>\<open>clean_dir\<close> itself, which keeps its leading spaces. A home directory is
  taken to fit the buffer of \<open>PATH_MAX\<close> bytes (\<^verbatim>\<open>strcpy\<close> is unchecked).
\<close>

definition trim_end :: "string \<Rightarrow> string" where
  "trim_end start =
     (case start of
        [] \<Rightarrow> []
      | c # cs \<Rightarrow> c # rev (dropWhile (\<lambda>x. x = CHR '' '' \<or> x = CHR 0x0A) (rev cs)))"

definition cd_target :: "string option \<Rightarrow> string \<Rightarrow> string" where
  "cd_target home cmd =
     (let dir = drop 3 cmd;
          clean_dir = strncpy_term PATH_MAX dir;
          skipped = takeWhile (\<lambda>x. x = CHR '' '') clean_dir;
          start = trim_end (dropWhile (\<lambda>x. x = CHR '' '') clean_dir);
          clean_dir1 = skipped @ start
      in if start = ''~'' then (case home of Some h \<Rightarrow> h | None \<Rightarrow> clean_dir1)
         else if take 2 start = ''~/''
         then (case home of Some h \<Rightarrow> snprintf PATH_MAX (h @ drop 1 start) | None \<Rightarrow> clean_dir1)
         else clean_dir1)"

text \<open>Lines 1035 to 1045 and 1050 to 1060: \<^verbatim>\<open>chdir\<close>, then the error line or \<^verbatim>\<open>getcwd\<close>.\<close>

definition change_directory ::
  "'w os \<Rightarrow> int \<Rightarrow> string \<Rightarrow> Terminal \<times> 'w \<Rightarrow> fatal + Terminal \<times> 'w" where
  "change_directory os lbe dir s =
     (case s of (active, w) \<Rightarrow>
        (case os_chdir os dir w of
           (Some err, w1) \<Rightarrow>
             (case log_line os lbe active (snprintf 128 (''cd: '' @ dir @ '': '' @ err))
                     HISTORY_TYPE_NORMAL of
                Inl e \<Rightarrow> Inl e
              | Inr active1 \<Rightarrow> Inr (active1, w1))
         | (None, w1) \<Rightarrow> Inr (active\<lparr>current_directory := os_getcwd os w1\<rparr>, w1)))"

text \<open>
  How a call of \<open>execute_command\<close> ends: \<open>Return\<close> for a \<^verbatim>\<open>return\<close> statement,
  \<open>Drain\<close> where it goes on to \<open>process_command_queue\<close> (line 1209).
\<close>

datatype 'a outcome = Return 'a | Drain 'a

definition returning :: "fatal + 'a \<Rightarrow> fatal + 'a outcome" where
  "returning r = (case r of Inl e \<Rightarrow> Inl e | Inr x \<Rightarrow> Inr (Return x))"

text \<open>
  Lines 1095 to 1121, an interactive command. The curses calls around \<^verbatim>\<open>system\<close>
  belong to the display and return nothing the program uses.
\<close>

definition exit_code_msg :: "int \<Rightarrow> string" where
  "exit_code_msg result = snprintf 128 (''Command returned with exit code: '' @ show_int result)"

definition run_interactive ::
  "'w os \<Rightarrow> int \<Rightarrow> string \<Rightarrow> Terminal \<times> 'w \<Rightarrow> fatal + Terminal \<times> 'w" where
  "run_interactive os lbe cmd s =
     (case s of (active, w) \<Rightarrow>
        (case log_lines os lbe active
                [''Starting interactive application...'',
                 ''Note: Use Ctrl+Z to suspend and 'fg' to return''] HISTORY_TYPE_NORMAL of
           Inl e \<Rightarrow> Inl e
         | Inr active1 \<Rightarrow>
             (case os_system os cmd w of (result, w1) \<Rightarrow>
                (case (if result \<noteq> 0
                       then log_line os lbe active1 (exit_code_msg result) HISTORY_TYPE_NORMAL
                       else Inr active1) of
                   Inl e \<Rightarrow> Inl e
                 | Inr active2 \<Rightarrow>
                     (case log_line os lbe active2 ''Returned to Parrot Terminal''
                             HISTORY_TYPE_NORMAL of
                        Inl e \<Rightarrow> Inl e
                      | Inr active3 \<Rightarrow> Inr (active3, w1))))))"

text \<open>
  \<^verbatim>\<open>strtok(buffer, "\n")\<close> and its continuation calls: the maximal runs of characters
  other than the delimiter, in order; empty runs are skipped. \<open>tok\<close> is the run being
  read.
\<close>

fun strtok_all :: "char \<Rightarrow> string \<Rightarrow> string \<Rightarrow> string list" where
  "strtok_all d tok [] = (if tok = [] then [] else [tok])"
| "strtok_all d tok (c # cs) =
     (if c = d then (if tok = [] then strtok_all d [] cs else tok # strtok_all d [] cs)
      else strtok_all d (tok @ [c]) cs)"

text \<open>
  Lines 1170 to 1180, for the bytes of one \<^verbatim>\<open>read\<close>: the buffer is a C string, so it
  ends at its first NUL byte; every token is copied into \<^verbatim>\<open>clean_line\<close>, stripped and
  logged.
\<close>

definition chunk_lines :: "string \<Rightarrow> string list" where
  "chunk_lines buffer =
     map (\<lambda>line. strip_escape_codes (strncpy_term 1024 line))
       (strtok_all (CHR 0x0A) [] (takeWhile (\<lambda>c. c \<noteq> CHR 0x00) buffer))"

text \<open>Lines 1169 to 1181, the \<^verbatim>\<open>read\<close> loop; a \<^verbatim>\<open>read\<close> that returns no byte ends it.\<close>

fun capture_output :: "'w os \<Rightarrow> int \<Rightarrow> string list \<Rightarrow> Terminal \<Rightarrow> fatal + Terminal" where
  "capture_output os lbe [] active = Inr active"
| "capture_output os lbe (buffer # reads) active =
     (if length buffer = 0 then Inr active
      else
        (case log_lines os lbe active (chunk_lines buffer) HISTORY_TYPE_NORMAL of
           Inl e \<Rightarrow> Inl e
         | Inr active1 \<Rightarrow> capture_output os lbe reads active1))"

text \<open>Lines 1159 and 1160.\<close>

definition run_start :: "int \<Rightarrow> Terminal \<Rightarrow> Terminal" where
  "run_start pid active = active\<lparr>cmd_state := CMD_STATE_RUNNING, current_process := pid\<rparr>"

text \<open>Lines 1190 to 1207.\<close>

definition run_finish :: "'w os \<Rightarrow> int \<Rightarrow> int \<Rightarrow> Terminal \<Rightarrow> fatal + Terminal" where
  "run_finish os lbe status active =
     (let active1 = active\<lparr>cmd_state := CMD_STATE_READY, current_process := 0\<rparr> in
      if WIFEXITED status \<and> WEXITSTATUS status \<noteq> 0 then
        log_line os lbe active1
          (snprintf 128 (''Command exited with status: '' @ show_int (WEXITSTATUS status)))
          HISTORY_TYPE_NORMAL
      else if WIFSIGNALED status then
        log_line os lbe active1
          (snprintf 128 (''Command terminated by signal: '' @ show_int (WTERMSIG status)))
          HISTORY_TYPE_NORMAL
      else Inr active1)"

text \<open>Lines 1124 to 1207, a command run with its output captured.\<close>

definition run_captured ::
  "'w os \<Rightarrow> int \<Rightarrow> string \<Rightarrow> Terminal \<times> 'w \<Rightarrow> fatal + (Terminal \<times> 'w) outcome" where
  "run_captured os lbe cmd s =
     (case s of (active, w) \<Rightarrow>
        (case os_spawn os cmd w of
           (PipeFailed err, w1) \<Rightarrow>
             (case log_line os lbe active (snprintf 128 (''Failed to create pipe: '' @ err))
                     HISTORY_TYPE_NORMAL of
                Inl e \<Rightarrow> Inl e
              | Inr active1 \<Rightarrow> Inr (Return (active1, w1)))
         | (ForkFailed err, w1) \<Rightarrow>
             (case log_line os lbe active (snprintf 128 (''Failed to fork process: '' @ err))
                     HISTORY_TYPE_NORMAL of
                Inl e \<Rightarrow> Inl e
              | Inr active1 \<Rightarrow> Inr (Return (active1, w1)))
         | (Spawned pid fdopen_ok reads status, w1) \<Rightarrow>
             (case (if fdopen_ok then capture_output os lbe reads (run_start pid active)
                    else Inr (run_start pid active)) of
                Inl e \<Rightarrow> Inl e
              | Inr active1 \<Rightarrow>
                  (case run_finish os lbe status active1 of
                     Inl e \<Rightarrow> Inl e
                   | Inr active2 \<Rightarrow> Inr (Drain (active2, w1))))))"

text \<open>The body of \<open>execute_command\<close> up to its \<^verbatim>\<open>return\<close> or to line 1209.\<close>

definition record_command :: "string \<Rightarrow> Terminal \<Rightarrow> Terminal" where
  "record_command cmd active =
     (let inp = input active in
      if cmd_history_count inp = 0 \<or>
         cmd \<noteq> cmd_history inp ! nat (cmd_history_count inp - 1)
      then active\<lparr>input := add_to_cmd_history inp cmd\<rparr> else active)"

definition execute_step ::
  "'w os \<Rightarrow> int \<Rightarrow> string \<Rightarrow> Terminal \<times> 'w \<Rightarrow> fatal + (Terminal \<times> 'w) outcome" where
  "execute_step os lbe cmd s =
     (case s of (active, w) \<Rightarrow>
        if length cmd = 0 then Inr (Return s)
        else if cmd = ''stop'' then returning (stop_current_command os lbe s)
        else if cmd = ''manual'' then
          (case log_lines os lbe active manual_text HISTORY_TYPE_RAW of
             Inl e \<Rightarrow> Inl e
           | Inr active1 \<Rightarrow> Inr (Return (active1, w)))
        else if is_command_running active then
          (case add_command_to_queue os lbe cmd active of
             Inl e \<Rightarrow> Inl e
           | Inr active1 \<Rightarrow> Inr (Return (active1, w)))
        else
          let active1 = record_command cmd active in
          if take 3 cmd = ''cd '' then
            returning (change_directory os lbe (cd_target (os_getenv_HOME os w) cmd) (active1, w))
          else if cmd = ''cd'' then
            (case os_getenv_HOME os w of
               None \<Rightarrow> Inr (Return (active1, w))
             | Some home \<Rightarrow> returning (change_directory os lbe home (active1, w)))
          else
            (case log_line os lbe active1 (snprintf 512 (os_clock os w @ '' '' @ cmd))
                    HISTORY_TYPE_COMMAND of
               Inl e \<Rightarrow> Inl e
             | Inr active2 \<Rightarrow>
                 if is_interactive cmd
                 then returning (run_interactive os lbe cmd (active2, w))
                 else run_captured os lbe cmd (active2, w)))"

text \<open>
  Lines 130 to 135 of \<open>process_command_queue\<close>: the terminal after the dequeue, with
  the input unlocked where the queue's state is normal.
\<close>

definition unlock_after_dequeue :: "CommandQueue \<Rightarrow> Terminal \<Rightarrow> Terminal" where
  "unlock_after_dequeue q active =
     (let active1 = active\<lparr>cmd_queue := q\<rparr> in
      if state (cmd_queue active1) = QUEUE_NORMAL
      then active1\<lparr>input := (input active1)\<lparr>is_locked := 0\<rparr>\<rparr> else active1)"

text \<open>
  \<open>execute_command\<close> calls \<open>process_command_queue\<close>, which calls \<open>execute_command\<close>
  on the dequeued command. The result is \<open>None\<close> where this recursion does not end,
  \<open>Some (Inl (Exit n))\<close> where the process exits, and the terminal and the world after
  the call otherwise.
\<close>

partial_function (option) execute_command ::
  "'w os \<Rightarrow> int \<Rightarrow> string \<Rightarrow> Terminal \<times> 'w \<Rightarrow> (fatal + Terminal \<times> 'w) option" where
  "execute_command os lbe cmd s =
     (case execute_step os lbe cmd s of
        Inl e \<Rightarrow> Some (Inl e)
      | Inr (Return s1) \<Rightarrow> Some (Inr s1)
      | Inr (Drain s1) \<Rightarrow>
          (if \<not> is_command_running (fst s1) \<and> \<not> is_queue_empty (cmd_queue (fst s1)) then
             (case get_from_queue (cmd_queue (fst s1)) of
                None \<Rightarrow> Some (Inr s1)
              | Some (next_cmd, q) \<Rightarrow>
                  execute_command os lbe next_cmd (unlock_after_dequeue q (fst s1), snd s1))
           else Some (Inr s1)))"

definition process_command_queue ::
  "'w os \<Rightarrow> int \<Rightarrow> Terminal \<times> 'w \<Rightarrow> (fatal + Terminal \<times> 'w) option" where
  "process_command_queue os lbe s =
     (case s of (active, w) \<Rightarrow>
        if \<not> is_command_running active \<and> \<not> is_queue_empty (cmd_queue active) then
          (case get_from_queue (cmd_queue active) of
             None \<Rightarrow> Some (Inr (active, w))
           | Some (next_cmd, q) \<Rightarrow>
               execute_command os lbe next_cmd (unlock_after_dequeue q active, w))
        else Some (Inr (active, w)))"

text \<open>
  The lines the \<^verbatim>\<open>read\<close> loop logs for a sequence of reads, and the line logged after
  \<^verbatim>\<open>waitpid\<close> for a status, collected as lists to state what a captured run appends.
\<close>

fun captured_lines :: "string list \<Rightarrow> string list" where
  "captured_lines [] = []"
| "captured_lines (buffer # reads) =
     (if length buffer = 0 then [] else chunk_lines buffer @ captured_lines reads)"

definition finish_lines :: "int \<Rightarrow> string list" where
  "finish_lines status =
     (if WIFEXITED status \<and> WEXITSTATUS status \<noteq> 0
      then [snprintf 128 (''Command exited with status: '' @ show_int (WEXITSTATUS status))]
      else if WIFSIGNALED status
      then [snprintf 128 (''Command terminated by signal: '' @ show_int (WTERMSIG status))]
      else [])"

text \<open>
  The capture as the specification words it: the bytes of the stream (all reads in
  order) are split at every line feed, a last piece without a line feed is kept as it
  is, and escape codes are stripped from each line. \<open>cur\<close> is the line being read.
\<close>

fun spec_split_lines :: "string \<Rightarrow> string \<Rightarrow> string list" where
  "spec_split_lines cur [] = (if cur = [] then [] else [cur])"
| "spec_split_lines cur (c # cs) =
     (if c = CHR 0x0A then cur # spec_split_lines [] cs else spec_split_lines (cur @ [c]) cs)"

definition spec_output_lines :: "string list \<Rightarrow> string list" where
  "spec_output_lines reads = map strip_escape_codes (spec_split_lines [] (concat reads))"

text \<open>Submitting a list of commands one after the other; a fatal exit ends the run.\<close>

fun submit_all ::
  "'w os \<Rightarrow> int \<Rightarrow> string list \<Rightarrow> Terminal \<times> 'w \<Rightarrow> (fatal + Terminal \<times> 'w) option" where
  "submit_all os lbe [] s = Some (Inr s)"
| "submit_all os lbe (cmd # cmds) s =
     (case execute_command os lbe cmd s of
        Some (Inr s1) \<Rightarrow> submit_all os lbe cmds s1
      | r \<Rightarrow> r)"

section \<open>A sample world\<close>

text \<open>
  A small operating system on which the theorems below are instantiated: the world is
  the working directory and the signals sent so far; two directories exist; three
  commands have a scripted run.
\<close>

record sample_world =
  sw_cwd :: string
  sw_signals :: "(int \<times> int) list"

definition sample_os :: "sample_world os" where
  "sample_os =
     \<lparr>os_realloc_ok = (\<lambda>n. True),
      os_getenv_HOME = (\<lambda>w. Some ''/home/user''),
      os_chdir = (\<lambda>dir w. if dir = ''/tmp'' \<or> dir = ''/home/user''
                           then (None, w\<lparr>sw_cwd := dir\<rparr>)
                           else (Some ''No such file or directory'', w)),
      os_getcwd = sw_cwd,
      os_clock = (\<lambda>w. ''[12:00:00]''),
      os_system = (\<lambda>cmd w. (if cmd = ''vim'' then exit_status 1 else 0, w)),
      os_spawn = (\<lambda>cmd w.
        (if cmd = ''echo hello'' then Spawned 4242 True [''hello'' @ [CHR 0x0A]] 0
         else if cmd = ''printf hel; sleep 1; echo lo''
         then Spawned 4243 True [''hel'', ''lo'' @ [CHR 0x0A]] 0
         else Spawned 4244 True [] (exit_status 127), w)),
      os_kill = (\<lambda>pid sig w. w\<lparr>sw_signals := sw_signals w @ [(pid, sig)]\<rparr>)\<rparr>"

definition sample_world0 :: sample_world where
  "sample_world0 = \<lparr>sw_cwd = ''/home/user'', sw_signals = []\<rparr>"

text \<open>The first terminal as \<open>init_terminal_manager\<close> sets it up.\<close>

definition sample_terminal :: Terminal where
  "sample_terminal =
     \<lparr>history = init_history_buffer, input = init_input_state, term_id = 0,
      split_with = - 1, split_direction = 0, current_directory = ''/home/user'',
      cmd_queue = init_command_queue, current_process = 0, cmd_state = CMD_STATE_READY\<rparr>"

text \<open>
  Three managers. In \<open>split_manager\<close> the terminals 0 and 2 are split partners and the
  unsplit terminal 1 is active. In \<open>crossed_manager\<close> the terminals 0 and 3 are
  partners, the terminals 1 and 2 are partners, and terminal 1 is active. In
  \<open>pairs_manager\<close> the terminals 0 and 1 are partners, the terminals 2 and 3 are
  partners, and terminal 0 is active.
\<close>

definition split_manager :: TerminalManager where
  "split_manager =
     \<lparr>terminals = [sample_terminal\<lparr>split_with := 2\<rparr>,
                   sample_terminal\<lparr>term_id := 1\<rparr>,
                   sample_terminal\<lparr>term_id := 2, split_with := 0\<rparr>],
      terminal_count = 3, active_terminal = 1, split_layout = 0\<rparr>"

definition crossed_manager :: TerminalManager where
  "crossed_manager =
     \<lparr>terminals = [sample_terminal\<lparr>split_with := 3\<rparr>,
                   sample_terminal\<lparr>term_id := 1, split_with := 2\<rparr>,
                   sample_terminal\<lparr>term_id := 2, split_with := 1\<rparr>,
                   sample_terminal\<lparr>term_id := 3, split_with := 0\<rparr>],
      terminal_count = 4, active_terminal = 1, split_layout = 0\<rparr>"

definition pairs_manager :: TerminalManager where
  "pairs_manager =
     \<lparr>terminals = [sample_terminal\<lparr>split_with := 1\<rparr>,
                   sample_terminal\<lparr>term_id := 1, split_with := 0\<rparr>,
                   sample_terminal\<lparr>term_id := 2, split_with := 3\<rparr>,
                   sample_terminal\<lparr>term_id := 3, split_with := 2\<rparr>],
      terminal_count = 4, active_terminal = 0, split_layout = 0\<rparr>"

text \<open>A ready terminal with a locked input and one pending command.\<close>

definition queued_terminal :: Terminal where
  "queued_terminal =
     sample_terminal\<lparr>cmd_queue := snd (add_to_queue init_command_queue ''cd /tmp''),
                     input := init_input_state\<lparr>is_locked := 1\<rparr>\<rparr>"

section \<open>Properties of the command queue\<close>

lemma smod_nonneg_eq_mod:
  fixes a :: int
  shows "0 \<le> a \<Longrightarrow> a smod 10 = a mod 10"
  by (simp add: signed_modulo_int_def sgn_if)

lemma queue_count_inv_init: "queue_count_inv init_command_queue"
  by (simp add: queue_count_inv_def init_command_queue_def QUEUE_NORMAL_def QUEUE_FULL_def)

lemma queue_count_inv_add: "queue_count_inv q \<Longrightarrow> queue_count_inv (snd (add_to_queue q cmd))"
  by (auto simp: queue_count_inv_def add_to_queue_def is_queue_full_def update_queue_state_def
      COMMAND_QUEUE_SIZE_def QUEUE_NORMAL_def QUEUE_FULL_def Let_def)

lemma queue_count_inv_get:
  "queue_count_inv q \<Longrightarrow> get_from_queue q = Some (cmd, q') \<Longrightarrow> queue_count_inv q'"
  by (auto simp: queue_count_inv_def get_from_queue_def is_queue_empty_def update_queue_state_def
      COMMAND_QUEUE_SIZE_def QUEUE_NORMAL_def QUEUE_FULL_def Let_def split: if_splits)

lemma queue_count_inv_op: "queue_count_inv q \<Longrightarrow> queue_count_inv (apply_queue_op q op)"
  by (cases op) (auto simp: queue_count_inv_add queue_count_inv_get split: option.splits)

lemma queue_count_inv_run: "queue_count_inv q \<Longrightarrow> queue_count_inv (run_queue_ops q ops)"
  unfolding run_queue_ops_def
  by (induction ops arbitrary: q) (simp_all add: queue_count_inv_op)

text \<open>
  C1. After any sequence of enqueue and dequeue operations on an initialised command
  queue, the count is between 0 and 10 and the state is \<open>QUEUE_FULL\<close> exactly when the
  count is 10.
\<close>

theorem queue_count_bounds:
  "0 \<le> count (run_queue_ops init_command_queue ops) \<and>
   count (run_queue_ops init_command_queue ops) \<le> 10 \<and>
   (state (run_queue_ops init_command_queue ops) = QUEUE_FULL \<longleftrightarrow>
    count (run_queue_ops init_command_queue ops) = 10)"
  using queue_count_inv_run [OF queue_count_inv_init, of ops]
  by (simp add: queue_count_inv_def)

lemma queue_wf_init: "queue_wf init_command_queue"
  by (simp add: queue_wf_def init_command_queue_def QUEUE_NORMAL_def COMMAND_QUEUE_SIZE_def
      list_all_iff)

lemma mod10_distinct:
  fixes h :: int
  assumes "0 \<le> h" "i < c" "c < 10"
  shows "nat ((h + int i) mod 10) \<noteq> nat ((h + int c) mod 10)"
proof
  assume "nat ((h + int i) mod 10) = nat ((h + int c) mod 10)"
  then have "(h + int c) mod 10 = (h + int i) mod 10"
    by (simp add: nat_eq_iff)
  then have "10 dvd ((h + int c) - (h + int i))"
    by (simp only: mod_eq_dvd_iff)
  then have d: "(10::int) dvd (int c - int i)" by simp
  have "0 < int c - int i" "int c - int i < 10" using assms by simp_all
  with d show False using zdvd_not_zless by blast
qed

lemma add_to_queue_wf:
  assumes "queue_wf q" "\<not> is_queue_full q"
  shows "fst (add_to_queue q cmd) = 1"
    and "queue_wf (snd (add_to_queue q cmd))"
    and "queue_contents (snd (add_to_queue q cmd)) = queue_contents q @ [take 511 cmd]"
proof -
  from assms have c: "0 \<le> count q" "count q < 10" and h: "0 \<le> head q" "head q < 10"
    and t: "tail q = (head q + count q) mod 10" and l: "length (commands q) = 10"
    and s: "list_all (\<lambda>s. length s \<le> 511) (commands q)"
    by (simp_all add: queue_wf_def is_queue_full_def COMMAND_QUEUE_SIZE_def)
  show "fst (add_to_queue q cmd) = 1"
    using assms by (simp add: add_to_queue_def Let_def)
  have t0: "0 \<le> tail q" "tail q < 10" using t by simp_all
  have tl: "(tail q + 1) smod 10 = (head q + (count q + 1)) mod 10"
    using t0 t by (simp add: smod_nonneg_eq_mod) presburger
  have s': "list_all (\<lambda>s. length s \<le> 511) ((commands q)[nat (tail q) := take 511 cmd])"
    using s by (auto simp: list_all_iff dest!: set_update_subset_insert [THEN subsetD])
  show "queue_wf (snd (add_to_queue q cmd))"
    using assms c h l tl s'
    by (simp add: add_to_queue_def Let_def queue_wf_def update_queue_state_def
        COMMAND_QUEUE_SIZE_def strncpy_term_def MAX_CMD_INPUT_def)
  have n: "nat (count q + 1) = Suc (nat (count q))" using c by simp
  have "queue_contents (snd (add_to_queue q cmd)) =
      map (\<lambda>i. (commands q)[nat (tail q) := take 511 cmd] ! nat ((head q + int i) mod 10))
        [0..<Suc (nat (count q))]"
    using assms n
    by (simp add: add_to_queue_def Let_def queue_contents_def update_queue_state_def
        strncpy_term_def MAX_CMD_INPUT_def)
  also have "\<dots> = map (\<lambda>i. commands q ! nat ((head q + int i) mod 10)) [0..<nat (count q)]
      @ [take 511 cmd]"
  proof -
    have a: "\<And>i. i < nat (count q) \<Longrightarrow>
        (commands q)[nat (tail q) := take 511 cmd] ! nat ((head q + int i) mod 10) =
        commands q ! nat ((head q + int i) mod 10)"
    proof -
      fix i assume "i < nat (count q)"
      then have "nat ((head q + int i) mod 10) \<noteq> nat ((head q + int (nat (count q))) mod 10)"
        using h c by (intro mod10_distinct) simp_all
      then show "(commands q)[nat (tail q) := take 511 cmd] ! nat ((head q + int i) mod 10) =
        commands q ! nat ((head q + int i) mod 10)"
        using t c by simp
    qed
    have b: "(commands q)[nat (tail q) := take 511 cmd] ! nat ((head q + int (nat (count q))) mod 10)
        = take 511 cmd"
      using t c t0 l by simp
    show ?thesis using a b by simp
  qed
  finally show "queue_contents (snd (add_to_queue q cmd)) = queue_contents q @ [take 511 cmd]"
    by (simp add: queue_contents_def)
qed

lemma add_to_queue_full:
  assumes "queue_wf q" "is_queue_full q"
  shows "add_to_queue q cmd = (0, q)"
  using assms
  by (simp add: add_to_queue_def queue_wf_def is_queue_full_def COMMAND_QUEUE_SIZE_def)

lemma queue_contents_length: "queue_wf q \<Longrightarrow> length (queue_contents q) = nat (count q)"
  by (simp add: queue_contents_def)

lemma get_from_queue_wf:
  assumes "queue_wf q" "\<not> is_queue_empty q"
  shows "\<exists>q'. get_from_queue q = Some (hd (queue_contents q), q') \<and> queue_wf q' \<and>
           queue_contents q' = tl (queue_contents q)"
proof -
  from assms have c: "0 < count q" "count q \<le> 10" and h: "0 \<le> head q" "head q < 10"
    and t: "tail q = (head q + count q) mod 10" and l: "length (commands q) = 10"
    and s: "list_all (\<lambda>s. length s \<le> 511) (commands q)"
    by (simp_all add: queue_wf_def is_queue_empty_def)
  define q' where "q' = update_queue_state
      (q\<lparr>head := (head q + 1) smod COMMAND_QUEUE_SIZE, count := count q - 1\<rparr>)"
  have hd: "hd (queue_contents q) = commands q ! nat (head q)"
  proof -
    have "[0..<nat (count q)] = 0 # [1..<nat (count q)]"
      using c by (simp add: upt_conv_Cons)
    then show ?thesis using h by (simp add: queue_contents_def)
  qed
  have len: "length (commands q ! nat (head q)) \<le> 511"
    using s h l by (simp add: list_all_length)
  have g: "get_from_queue q = Some (hd (queue_contents q), q')"
    using assms hd len
    by (simp add: get_from_queue_def Let_def q'_def strncpy_term_def MAX_CMD_INPUT_def)
  have h': "(head q + 1) smod 10 = (head q + 1) mod 10"
    using h by (simp add: smod_nonneg_eq_mod)
  have t': "tail q = ((head q + 1) mod 10 + (count q - 1)) mod 10"
    using t by (simp add: mod_add_left_eq)
  have wf: "queue_wf q'"
    using assms c h l s h' t'
    by (simp add: q'_def queue_wf_def update_queue_state_def COMMAND_QUEUE_SIZE_def)
  have n: "nat (count q) = Suc (nat (count q - 1))" using c by simp
  have ix: "((head q + 1) mod 10 + int i) mod 10 = (head q + int (Suc i)) mod 10" for i
  proof -
    have "((head q + 1) mod 10 + int i) mod 10 = ((head q + 1) + int i) mod 10"
      by (rule mod_add_left_eq)
    then show ?thesis by (simp add: ac_simps)
  qed
  have "tl (queue_contents q) =
      map (\<lambda>i. commands q ! nat ((head q + int (Suc i)) mod 10)) [0..<nat (count q - 1)]"
    unfolding queue_contents_def n
    by (simp only: upt_conv_Cons [of 0] list.map list.sel map_Suc_upt [symmetric] map_map o_def)
  also have "\<dots> = queue_contents q'"
    using h' ix
    by (simp add: queue_contents_def q'_def update_queue_state_def COMMAND_QUEUE_SIZE_def)
  finally show ?thesis using g wf by simp
qed

lemma apply_queue_op_refines:
  assumes "queue_wf q"
  shows "queue_wf (apply_queue_op q op) \<and>
         queue_contents (apply_queue_op q op) = fifo_op (queue_contents q) op"
proof (cases op)
  case (Enqueue cmd)
  show ?thesis
  proof (cases "is_queue_full q")
    case True
    then have "\<not> length (queue_contents q) < 10"
      using assms by (simp add: queue_contents_length is_queue_full_def COMMAND_QUEUE_SIZE_def)
    then show ?thesis
      using assms True Enqueue by (simp add: add_to_queue_full)
  next
    case False
    then have "length (queue_contents q) < 10"
      using assms by (simp add: queue_contents_length is_queue_full_def COMMAND_QUEUE_SIZE_def)
    then show ?thesis
      using assms False Enqueue by (simp add: add_to_queue_wf)
  qed
next
  case Dequeue
  show ?thesis
  proof (cases "is_queue_empty q")
    case True
    then have "queue_contents q = []"
      by (simp add: queue_contents_def is_queue_empty_def)
    then show ?thesis
      using assms True Dequeue by (simp add: get_from_queue_def)
  next
    case False
    from get_from_queue_wf [OF assms False] show ?thesis
      using Dequeue by auto
  qed
qed

lemma run_queue_ops_refines:
  "queue_wf q \<Longrightarrow>
   queue_wf (run_queue_ops q ops) \<and>
   queue_contents (run_queue_ops q ops) = foldl fifo_op (queue_contents q) ops"
  unfolding run_queue_ops_def
  by (induction ops arbitrary: q) (simp_all add: apply_queue_op_refines)

lemma fifo_front:
  "length (filter is_dequeue ops) = length xs \<Longrightarrow>
   \<exists>zs'. foldl fifo_op (xs @ y # zs) ops = y # zs'"
proof (induction ops arbitrary: xs zs)
  case Nil
  then show ?case by simp
next
  case (Cons op ops)
  show ?case
  proof (cases op)
    case (Enqueue cmd)
    with Cons.prems have n: "length (filter is_dequeue ops) = length xs" by simp
    from Cons.IH [OF n, of "zs @ [take 511 cmd]"] Cons.IH [OF n, of zs]
    show ?thesis using Enqueue by simp
  next
    case Dequeue
    with Cons.prems obtain x xs' where xs: "xs = x # xs'"
      and n: "length (filter is_dequeue ops) = length xs'"
      by (cases xs) simp_all
    from Cons.IH [OF n, of zs] show ?thesis using Dequeue xs by simp
  qed
qed

text \<open>
  C10. A command enqueued into a well-formed queue that is not full is accepted, and once
  the entries that were ahead of it have been dequeued (whatever is enqueued in between),
  the next dequeue returns it: unchanged when it is shorter than 512 characters, cut
  to its first 511 characters otherwise.
\<close>

theorem enqueue_dequeue_fifo:
  assumes "queue_wf q" and "\<not> is_queue_full q"
    and "length (filter is_dequeue ops) = nat (count q)"
  shows "fst (add_to_queue q cmd) = 1 \<and>
         (\<exists>q'. get_from_queue (run_queue_ops (snd (add_to_queue q cmd)) ops) =
                 Some (if length cmd < 512 then cmd else take 511 cmd, q'))"
proof -
  let ?q1 = "snd (add_to_queue q cmd)"
  let ?q2 = "run_queue_ops ?q1 ops"
  have wf1: "queue_wf ?q1" and c1: "queue_contents ?q1 = queue_contents q @ [take 511 cmd]"
    using assms(1,2) by (rule add_to_queue_wf)+
  from run_queue_ops_refines [OF wf1, of ops]
  have wf2: "queue_wf ?q2"
    and c2: "queue_contents ?q2 = foldl fifo_op (queue_contents q @ take 511 cmd # []) ops"
    by (simp_all add: c1)
  have "length (filter is_dequeue ops) = length (queue_contents q)"
    using assms by (simp add: queue_contents_length)
  from fifo_front [OF this, of "take 511 cmd" "[]"] c2
  obtain zs where zs: "queue_contents ?q2 = take 511 cmd # zs" by auto
  then have "\<not> is_queue_empty ?q2"
    by (auto simp: queue_contents_def is_queue_empty_def)
  from get_from_queue_wf [OF wf2 this] zs
  have "\<exists>q'. get_from_queue ?q2 = Some (take 511 cmd, q')" by auto
  moreover have "fst (add_to_queue q cmd) = 1"
    using assms(1,2) by (rule add_to_queue_wf)
  moreover have "length cmd < 512 \<Longrightarrow> take 511 cmd = cmd"
    by simp
  ultimately show ?thesis by auto
qed

theorem enqueue_dequeue_fifo_witness:
  "queue_wf (snd (add_to_queue init_command_queue ''pwd'')) \<and>
   \<not> is_queue_full (snd (add_to_queue init_command_queue ''pwd'')) \<and>
   length (filter is_dequeue [Enqueue ''date'', Dequeue]) =
     nat (count (snd (add_to_queue init_command_queue ''pwd''))) \<and>
   fst (add_to_queue (snd (add_to_queue init_command_queue ''pwd'')) ''ls'') = 1 \<and>
   (\<exists>q'. get_from_queue (run_queue_ops
        (snd (add_to_queue (snd (add_to_queue init_command_queue ''pwd'')) ''ls''))
        [Enqueue ''date'', Dequeue]) = Some (''ls'', q'))"
proof -
  let ?q = "snd (add_to_queue init_command_queue ''pwd'')"
  have f: "\<not> is_queue_full init_command_queue"
    by (simp add: is_queue_full_def init_command_queue_def COMMAND_QUEUE_SIZE_def)
  have wf: "queue_wf ?q"
    using queue_wf_init f by (rule add_to_queue_wf)
  have c: "count ?q = 1"
    by (simp add: add_to_queue_def is_queue_full_def init_command_queue_def
        COMMAND_QUEUE_SIZE_def update_queue_state_def Let_def)
  have nf: "\<not> is_queue_full ?q"
    using c by (simp add: is_queue_full_def COMMAND_QUEUE_SIZE_def)
  have n: "length (filter is_dequeue [Enqueue ''date'', Dequeue]) = nat (count ?q)"
    using c by simp
  from enqueue_dequeue_fifo [OF wf nf n, of "''ls''"] wf nf n
  show ?thesis by simp
qed

section \<open>Properties of the history buffer\<close>

lemma hist_wf_init: "hist_wf init_history_buffer"
  by (simp add: hist_wf_def init_history_buffer_def)

lemma add_history_line_ok:
  assumes "hist_wf buf" and "hcount buf < capacity buf \<or> realloc_ok (capacity buf * 2)"
  shows "\<exists>buf'. add_history_line lbe realloc_ok buf text line_type = Inr buf' \<and> hist_wf buf' \<and>
           lines buf' = lines buf @ [if lbe = 0 then collapse_line_breaks text else text] \<and>
           line_types buf' = line_types buf @ [line_type] \<and>
           hcount buf' = hcount buf + 1 \<and> scroll_offset buf' = scroll_offset buf"
  using assms by (auto simp: add_history_line_def hist_wf_def Let_def)

text \<open>
  C9. An append whose reallocation, if one is needed, succeeds stores the text at the
  end of the history with its classification as given: with every line feed replaced
  by a space when \<^verbatim>\<open>line_break_enabled\<close> is 0, unchanged otherwise.
\<close>

theorem add_history_line_stores:
  assumes "hist_wf buf" and "hcount buf < capacity buf \<or> realloc_ok (capacity buf * 2)"
  shows "\<exists>buf'. add_history_line lbe realloc_ok buf text line_type = Inr buf' \<and>
           lines buf' = lines buf @
             [if lbe = 0 then map (\<lambda>c. if c = CHR 0x0A then CHR '' '' else c) text else text] \<and>
           line_types buf' = line_types buf @ [line_type] \<and>
           hcount buf' = hcount buf + 1"
  using add_history_line_ok [where realloc_ok = realloc_ok, OF assms, of lbe "text" line_type]
  by (auto simp: collapse_line_breaks_def)

theorem add_history_line_stores_witness:
  "hist_wf init_history_buffer \<and>
   (hcount init_history_buffer < capacity init_history_buffer \<or> False) \<and>
   (\<exists>buf'. add_history_line 0 (\<lambda>n. False) init_history_buffer [CHR ''a'', CHR 0x0A, CHR ''b'']
              HISTORY_TYPE_COMMAND = Inr buf' \<and>
      lines buf' = [''a b''] \<and> line_types buf' = [HISTORY_TYPE_COMMAND] \<and> hcount buf' = 1)"
proof -
  have r: "hcount init_history_buffer < capacity init_history_buffer \<or> False"
    by (simp add: init_history_buffer_def)
  from add_history_line_stores [where realloc_ok = "\<lambda>n. False", OF hist_wf_init r, of 0
      "[CHR ''a'', CHR 0x0A, CHR ''b'']" HISTORY_TYPE_COMMAND] r hist_wf_init
  show ?thesis by (simp add: init_history_buffer_def)
qed

section \<open>Properties of logging, stopping and queueing\<close>

lemma log_line_room:
  assumes "hist_wf (history t)"
    and "hcount (history t) < capacity (history t) \<or> os_realloc_ok os (capacity (history t) * 2)"
  shows "\<exists>h. log_line os lbe t s line_type = Inr (t\<lparr>history := h\<rparr>) \<and> hist_wf h \<and>
           lines h = lines (history t) @ [if lbe = 0 then collapse_line_breaks s else s] \<and>
           line_types h = line_types (history t) @ [line_type] \<and>
           hcount h = hcount (history t) + 1 \<and> scroll_offset h = scroll_offset (history t)"
  using add_history_line_ok [where realloc_ok = "os_realloc_ok os", OF assms, of lbe s line_type]
  by (auto simp: log_line_def)

lemma collapse_line_breaks_id: "CHR 0x0A \<notin> set s \<Longrightarrow> collapse_line_breaks s = s"
  by (induction s) (auto simp: collapse_line_breaks_def)

lemma stop_msgs_plain:
  "collapse_line_breaks ''Command interrupted (SIGINT sent)'' = ''Command interrupted (SIGINT sent)''"
  "collapse_line_breaks ''No command is currently running'' = ''No command is currently running''"
  by (simp_all add: collapse_line_breaks_def)

lemma stop_current_command_result:
  assumes "hist_wf (history t)"
    and "hcount (history t) < capacity (history t) \<or> os_realloc_ok os (capacity (history t) * 2)"
  shows "\<exists>h. hist_wf h \<and>
      lines h = lines (history t) @
        [if cmd_state t = CMD_STATE_RUNNING \<and> current_process t > 0
         then ''Command interrupted (SIGINT sent)'' else ''No command is currently running''] \<and>
      line_types h = line_types (history t) @ [HISTORY_TYPE_NORMAL] \<and>
      hcount h = hcount (history t) + 1 \<and>
      stop_current_command os lbe (t, w) =
        Inr (if cmd_state t = CMD_STATE_RUNNING \<and> current_process t > 0
             then (t\<lparr>history := h, cmd_state := CMD_STATE_READY, current_process := 0\<rparr>,
                   os_kill os (current_process t) SIGINT w)
             else (t\<lparr>history := h\<rparr>, w))"
proof (cases "cmd_state t = CMD_STATE_RUNNING \<and> current_process t > 0")
  case True
  from log_line_room [OF assms, of lbe "''Command interrupted (SIGINT sent)''" HISTORY_TYPE_NORMAL]
  obtain h where "log_line os lbe t ''Command interrupted (SIGINT sent)'' HISTORY_TYPE_NORMAL =
      Inr (t\<lparr>history := h\<rparr>)" "hist_wf h"
    "lines h = lines (history t) @ [''Command interrupted (SIGINT sent)'']"
    "line_types h = line_types (history t) @ [HISTORY_TYPE_NORMAL]"
    "hcount h = hcount (history t) + 1"
    by (auto simp: stop_msgs_plain)
  then show ?thesis using True
    by (intro exI [of _ h]) (simp add: stop_current_command_def Let_def)
next
  case False
  from log_line_room [OF assms, of lbe "''No command is currently running''" HISTORY_TYPE_NORMAL]
  obtain h where "log_line os lbe t ''No command is currently running'' HISTORY_TYPE_NORMAL =
      Inr (t\<lparr>history := h\<rparr>)" "hist_wf h"
    "lines h = lines (history t) @ [''No command is currently running'']"
    "line_types h = line_types (history t) @ [HISTORY_TYPE_NORMAL]"
    "hcount h = hcount (history t) + 1"
    by (auto simp: stop_msgs_plain)
  then show ?thesis using False
    by (intro exI [of _ h]) (auto simp add: stop_current_command_def Let_def)
qed

text \<open>
  C4. Submitting \<^verbatim>\<open>stop\<close> appends one normal line to the history and returns. When the
  status is running and a positive process id is recorded, the line is the
  confirmation, SIGINT is sent to that process, the status becomes ready and the
  process id 0. In every other state the line is "No command is currently running"
  and nothing else changes. The command queue is the same afterwards in both cases.
\<close>

theorem stop_never_queues:
  assumes "hist_wf (history t)"
    and "hcount (history t) < capacity (history t) \<or> os_realloc_ok os (capacity (history t) * 2)"
  shows "\<exists>t' w'. execute_command os lbe ''stop'' (t, w) = Some (Inr (t', w')) \<and>
      cmd_queue t' = cmd_queue t \<and> input t' = input t \<and>
      line_types (history t') = line_types (history t) @ [HISTORY_TYPE_NORMAL] \<and>
      (if cmd_state t = CMD_STATE_RUNNING \<and> current_process t > 0
       then w' = os_kill os (current_process t) SIGINT w \<and>
            lines (history t') = lines (history t) @ [''Command interrupted (SIGINT sent)''] \<and>
            cmd_state t' = CMD_STATE_READY \<and> current_process t' = 0
       else w' = w \<and>
            lines (history t') = lines (history t) @ [''No command is currently running''] \<and>
            cmd_state t' = cmd_state t \<and> current_process t' = current_process t)"
proof -
  from stop_current_command_result [OF assms, of lbe w]
  obtain h where h: "lines h = lines (history t) @
        [if cmd_state t = CMD_STATE_RUNNING \<and> current_process t > 0
         then ''Command interrupted (SIGINT sent)'' else ''No command is currently running'']"
      "line_types h = line_types (history t) @ [HISTORY_TYPE_NORMAL]"
    and s: "stop_current_command os lbe (t, w) =
        Inr (if cmd_state t = CMD_STATE_RUNNING \<and> current_process t > 0
             then (t\<lparr>history := h, cmd_state := CMD_STATE_READY, current_process := 0\<rparr>,
                   os_kill os (current_process t) SIGINT w)
             else (t\<lparr>history := h\<rparr>, w))"
    by blast
  have "execute_command os lbe ''stop'' (t, w) =
      Some (Inr (if cmd_state t = CMD_STATE_RUNNING \<and> current_process t > 0
             then (t\<lparr>history := h, cmd_state := CMD_STATE_READY, current_process := 0\<rparr>,
                   os_kill os (current_process t) SIGINT w)
             else (t\<lparr>history := h\<rparr>, w)))"
    by (subst execute_command.simps) (simp add: execute_step_def returning_def s)
  then show ?thesis using h by auto
qed

lemma sample_terminal_hist_wf: "hist_wf (history sample_terminal)"
  by (simp add: sample_terminal_def hist_wf_init)

lemma sample_os_realloc: "os_realloc_ok sample_os n"
  by (simp add: sample_os_def)

theorem stop_never_queues_witness:
  "hist_wf (history (sample_terminal\<lparr>cmd_state := CMD_STATE_RUNNING, current_process := 4242\<rparr>)) \<and>
   os_realloc_ok sample_os
     (capacity (history (sample_terminal\<lparr>cmd_state := CMD_STATE_RUNNING,
        current_process := 4242\<rparr>)) * 2) \<and>
   (\<exists>t' w'. execute_command sample_os 1 ''stop''
        (sample_terminal\<lparr>cmd_state := CMD_STATE_RUNNING, current_process := 4242\<rparr>,
         sample_world0) = Some (Inr (t', w')) \<and>
      cmd_queue t' = init_command_queue \<and>
      sw_signals w' = [(4242, SIGINT)] \<and>
      lines (history t') = [''Command interrupted (SIGINT sent)''] \<and>
      line_types (history t') = [HISTORY_TYPE_NORMAL] \<and>
      cmd_state t' = CMD_STATE_READY \<and> current_process t' = 0)"
proof -
  let ?t = "sample_terminal\<lparr>cmd_state := CMD_STATE_RUNNING, current_process := 4242\<rparr>"
  have wf: "hist_wf (history ?t)"
    by (simp add: sample_terminal_hist_wf)
  have room: "hcount (history ?t) < capacity (history ?t) \<or>
      os_realloc_ok sample_os (capacity (history ?t) * 2)"
    by (simp add: sample_os_realloc)
  from stop_never_queues [OF wf room, of 1 sample_world0]
  obtain t' w' where "execute_command sample_os 1 ''stop'' (?t, sample_world0) =
      Some (Inr (t', w'))" "cmd_queue t' = cmd_queue ?t"
    "line_types (history t') = line_types (history ?t) @ [HISTORY_TYPE_NORMAL]"
    "w' = os_kill sample_os (current_process ?t) SIGINT sample_world0"
    "lines (history t') = lines (history ?t) @ [''Command interrupted (SIGINT sent)'']"
    "cmd_state t' = CMD_STATE_READY" "current_process t' = 0"
    by auto
  then show ?thesis
    by (simp add: sample_os_realloc sample_terminal_def init_history_buffer_def hist_wf_def
        sample_os_def sample_world0_def)
qed

lemma show_nat_digits: "set (show_nat n) \<subseteq> set ''0123456789''"
proof (induction n rule: show_nat.induct)
  case (1 n)
  have d: "''0123456789'' ! k \<in> set ''0123456789''" if "k < 10" for k
    using that by (intro nth_mem) simp
  show ?case
  proof (cases "n < 10")
    case True
    then show ?thesis using d [of n] by (subst show_nat.simps) simp
  next
    case False
    have "n mod 10 < 10" by simp
    from d [OF this] 1 False show ?thesis by (subst show_nat.simps) simp
  qed
qed

lemma show_int_no_newline: "CHR 0x0A \<notin> set (show_int i)"
  using show_nat_digits [of "nat i"] show_nat_digits [of "nat (- i)"]
  by (auto simp: show_int_def)

lemma queue_added_msg_plain: "collapse_line_breaks (queue_added_msg n) = queue_added_msg n"
proof -
  have "CHR 0x0A \<notin> set (''Command added to queue. Queue size: '' @ show_int n @ ''/'' @
       show_int COMMAND_QUEUE_SIZE)"
    using show_int_no_newline by simp
  then have "CHR 0x0A \<notin> set (queue_added_msg n)"
    unfolding queue_added_msg_def snprintf_def by (meson in_set_takeD)
  then show ?thesis by (rule collapse_line_breaks_id)
qed

lemma queue_full_msg_plain: "collapse_line_breaks queue_full_msg = queue_full_msg"
  by (simp add: collapse_line_breaks_def queue_full_msg_def)

lemma log_line_always:
  assumes "hist_wf (history t)" and "\<forall>n. os_realloc_ok os n"
  shows "\<exists>h. log_line os lbe t s line_type = Inr (t\<lparr>history := h\<rparr>) \<and> hist_wf h \<and>
           lines h = lines (history t) @ [if lbe = 0 then collapse_line_breaks s else s] \<and>
           line_types h = line_types (history t) @ [line_type] \<and>
           hcount h = hcount (history t) + 1 \<and> scroll_offset h = scroll_offset (history t)"
  using assms by (intro log_line_room) simp_all

lemma execute_running_queues:
  assumes run: "cmd_state t = CMD_STATE_RUNNING"
    and cmd: "cmd \<noteq> []" "cmd \<noteq> ''stop''" "cmd \<noteq> ''manual''"
    and wf: "queue_wf (cmd_queue t)" and nf: "\<not> is_queue_full (cmd_queue t)"
    and hwf: "hist_wf (history t)" and mem: "\<forall>n. os_realloc_ok os n"
  shows "\<exists>h. hist_wf h \<and>
      lines h = lines (history t) @ [queue_added_msg (count (cmd_queue t) + 1)] \<and>
      line_types h = line_types (history t) @ [HISTORY_TYPE_NORMAL] \<and>
      execute_command os lbe cmd (t, w) =
        Some (Inr (t\<lparr>cmd_queue := snd (add_to_queue (cmd_queue t) cmd), history := h\<rparr>, w))"
proof -
  have ok: "fst (add_to_queue (cmd_queue t) cmd) = 1"
    using wf nf by (rule add_to_queue_wf)
  then obtain q where e: "add_to_queue (cmd_queue t) cmd = (1, q)"
    by (cases "add_to_queue (cmd_queue t) cmd") simp
  have c: "count q = count (cmd_queue t) + 1"
    using nf e by (auto simp: add_to_queue_def Let_def update_queue_state_def)
  have "hist_wf (history (t\<lparr>cmd_queue := q\<rparr>))" using hwf by simp
  from log_line_always [OF this mem, of lbe "queue_added_msg (count q)" HISTORY_TYPE_NORMAL]
  obtain h where h: "log_line os lbe (t\<lparr>cmd_queue := q\<rparr>) (queue_added_msg (count q))
      HISTORY_TYPE_NORMAL = Inr (t\<lparr>cmd_queue := q, history := h\<rparr>)" "hist_wf h"
    "lines h = lines (history t) @ [queue_added_msg (count q)]"
    "line_types h = line_types (history t) @ [HISTORY_TYPE_NORMAL]"
    by (auto simp: queue_added_msg_plain)
  have a: "add_command_to_queue os lbe cmd t = Inr (t\<lparr>cmd_queue := q, history := h\<rparr>)"
    using h(1) by (simp add: add_command_to_queue_def Let_def e)
  have "execute_command os lbe cmd (t, w) = Some (Inr (t\<lparr>cmd_queue := q, history := h\<rparr>, w))"
    using cmd run
    by (subst execute_command.simps) (simp add: execute_step_def is_command_running_def a)
  then show ?thesis using h c by (intro exI [of _ h]) (simp add: e)
qed

lemma execute_running_full:
  assumes run: "cmd_state t = CMD_STATE_RUNNING"
    and cmd: "cmd \<noteq> []" "cmd \<noteq> ''stop''" "cmd \<noteq> ''manual''"
    and wf: "queue_wf (cmd_queue t)" and full: "is_queue_full (cmd_queue t)"
    and hwf: "hist_wf (history t)" and mem: "\<forall>n. os_realloc_ok os n"
  shows "\<exists>h. hist_wf h \<and>
      lines h = lines (history t) @ [queue_full_msg] \<and>
      line_types h = line_types (history t) @ [HISTORY_TYPE_RAW] \<and>
      execute_command os lbe cmd (t, w) =
        Some (Inr (t\<lparr>history := h, input := (input t)\<lparr>is_locked := 1\<rparr>\<rparr>, w))"
proof -
  have q: "add_to_queue (cmd_queue t) cmd = (0, cmd_queue t)"
    using wf full by (rule add_to_queue_full)
  from log_line_always [OF hwf mem, of lbe queue_full_msg HISTORY_TYPE_RAW]
  obtain h where h: "log_line os lbe t queue_full_msg HISTORY_TYPE_RAW = Inr (t\<lparr>history := h\<rparr>)"
    "hist_wf h" "lines h = lines (history t) @ [queue_full_msg]"
    "line_types h = line_types (history t) @ [HISTORY_TYPE_RAW]"
    by (auto simp: queue_full_msg_plain)
  have a: "add_command_to_queue os lbe cmd t =
      Inr (t\<lparr>history := h, input := (input t)\<lparr>is_locked := 1\<rparr>\<rparr>)"
    using q h(1) by (simp add: add_command_to_queue_def Let_def)
  have "execute_command os lbe cmd (t, w) =
      Some (Inr (t\<lparr>history := h, input := (input t)\<lparr>is_locked := 1\<rparr>\<rparr>, w))"
    using cmd run
    by (subst execute_command.simps) (simp add: execute_step_def is_command_running_def a)
  then show ?thesis using h by (intro exI [of _ h]) simp
qed

lemma add_to_queue_count:
  "\<not> is_queue_full q \<Longrightarrow> count (snd (add_to_queue q cmd)) = count q + 1"
  by (simp add: add_to_queue_def Let_def update_queue_state_def)

lemma submit_all_queues:
  assumes "cmd_state t = CMD_STATE_RUNNING"
    and "\<forall>c \<in> set cmds. c \<noteq> [] \<and> c \<noteq> ''stop'' \<and> c \<noteq> ''manual''"
    and "queue_wf (cmd_queue t)" and "count (cmd_queue t) + int (length cmds) \<le> 10"
    and "hist_wf (history t)" and "\<forall>n. os_realloc_ok os n"
  shows "\<exists>t'. submit_all os lbe cmds (t, w) = Some (Inr (t', w)) \<and>
      queue_wf (cmd_queue t') \<and>
      queue_contents (cmd_queue t') = queue_contents (cmd_queue t) @ map (take 511) cmds \<and>
      count (cmd_queue t') = count (cmd_queue t) + int (length cmds) \<and>
      hist_wf (history t') \<and>
      lines (history t') = lines (history t) @
        map (\<lambda>i. queue_added_msg (count (cmd_queue t) + 1 + int i)) [0..<length cmds] \<and>
      line_types (history t') = line_types (history t) @
        replicate (length cmds) HISTORY_TYPE_NORMAL \<and>
      input t' = input t \<and> cmd_state t' = cmd_state t \<and>
      current_process t' = current_process t"
  using assms
proof (induction cmds arbitrary: t)
  case Nil
  then show ?case by simp
next
  case (Cons cmd cmds)
  let ?q1 = "snd (add_to_queue (cmd_queue t) cmd)"
  have nf: "\<not> is_queue_full (cmd_queue t)"
    using Cons.prems(4) by (simp add: is_queue_full_def COMMAND_QUEUE_SIZE_def)
  have cmd: "cmd \<noteq> []" "cmd \<noteq> ''stop''" "cmd \<noteq> ''manual''"
    using Cons.prems(2) by simp_all
  from execute_running_queues [OF Cons.prems(1) cmd Cons.prems(3) nf Cons.prems(5,6), of lbe w]
  obtain h where h: "hist_wf h"
    "lines h = lines (history t) @ [queue_added_msg (count (cmd_queue t) + 1)]"
    "line_types h = line_types (history t) @ [HISTORY_TYPE_NORMAL]"
    and ex: "execute_command os lbe cmd (t, w) =
        Some (Inr (t\<lparr>cmd_queue := ?q1, history := h\<rparr>, w))"
    by blast
  let ?t1 = "t\<lparr>cmd_queue := ?q1, history := h\<rparr>"
  have wf1: "queue_wf ?q1"
    and c1: "queue_contents ?q1 = queue_contents (cmd_queue t) @ [take 511 cmd]"
    using Cons.prems(3) nf by (rule add_to_queue_wf)+
  have n1: "count ?q1 = count (cmd_queue t) + 1"
    using nf by (rule add_to_queue_count)
  have p1: "cmd_state ?t1 = CMD_STATE_RUNNING" using Cons.prems(1) by simp
  have p2: "\<forall>c \<in> set cmds. c \<noteq> [] \<and> c \<noteq> ''stop'' \<and> c \<noteq> ''manual''"
    using Cons.prems(2) by simp
  have p3: "queue_wf (cmd_queue ?t1)" using wf1 by simp
  have p4: "count (cmd_queue ?t1) + int (length cmds) \<le> 10"
    using Cons.prems(4) n1 by simp
  have p5: "hist_wf (history ?t1)" using h(1) by simp
  from Cons.IH [OF p1 p2 p3 p4 p5 Cons.prems(6)]
  obtain t' where t': "submit_all os lbe cmds (?t1, w) = Some (Inr (t', w))"
    "queue_wf (cmd_queue t')"
    "queue_contents (cmd_queue t') = queue_contents (cmd_queue ?t1) @ map (take 511) cmds"
    "count (cmd_queue t') = count (cmd_queue ?t1) + int (length cmds)"
    "hist_wf (history t')"
    "lines (history t') = lines (history ?t1) @
        map (\<lambda>i. queue_added_msg (count (cmd_queue ?t1) + 1 + int i)) [0..<length cmds]"
    "line_types (history t') = line_types (history ?t1) @
        replicate (length cmds) HISTORY_TYPE_NORMAL"
    "input t' = input ?t1" "cmd_state t' = cmd_state ?t1"
    "current_process t' = current_process ?t1"
    by blast
  have m: "map (\<lambda>i. queue_added_msg (count (cmd_queue t) + 1 + int i)) [0..<length (cmd # cmds)] =
      queue_added_msg (count (cmd_queue t) + 1) #
      map (\<lambda>i. queue_added_msg (count (cmd_queue t) + 1 + 1 + int i)) [0..<length cmds]"
    by (simp add: map_upt_Suc add.assoc del: upt_Suc)
  have s: "submit_all os lbe (cmd # cmds) (t, w) = Some (Inr (t', w))"
    using ex t'(1) by simp
  show ?case
    unfolding m using s t'(2-) c1 n1 h(2,3)
    by (intro exI [of _ t']) (simp add: replicate_app_Cons_same)
qed

lemma submit_all_snoc:
  "submit_all os lbe cmds s = Some (Inr s1) \<Longrightarrow>
   submit_all os lbe (cmds @ [cmd]) s = execute_command os lbe cmd s1"
proof (induction cmds arbitrary: s)
  case Nil
  then show ?case by (simp split: option.splits sum.splits)
next
  case (Cons c cmds)
  then show ?case by (auto split: option.splits sum.splits)
qed

text \<open>
  C2. With the status running, an empty queue and eleven submitted commands, none of
  them empty, \<^verbatim>\<open>stop\<close> or \<^verbatim>\<open>manual\<close>: the first ten are queued in order (each cut to
  511 characters), each logging the new queue depth as a normal line, and leave the
  input state alone; the eleventh leaves the queue as it is, logs the queue-full
  warning as a raw line and sets the lock flag. The status stays running throughout.
\<close>

theorem running_submits_are_queued:
  assumes "cmd_state t = CMD_STATE_RUNNING"
    and "queue_wf (cmd_queue t)" and "is_queue_empty (cmd_queue t)"
    and "hist_wf (history t)" and "\<forall>n. os_realloc_ok os n"
    and "length cmds = 10"
    and "\<forall>c \<in> set (cmds @ [cmd11]). c \<noteq> [] \<and> c \<noteq> ''stop'' \<and> c \<noteq> ''manual''"
  shows "\<exists>t10 t11.
      submit_all os lbe cmds (t, w) = Some (Inr (t10, w)) \<and>
      queue_contents (cmd_queue t10) = map (take 511) cmds \<and>
      count (cmd_queue t10) = 10 \<and>
      lines (history t10) = lines (history t) @
        map (\<lambda>i. queue_added_msg (int i + 1)) [0..<10] \<and>
      line_types (history t10) = line_types (history t) @ replicate 10 HISTORY_TYPE_NORMAL \<and>
      input t10 = input t \<and> cmd_state t10 = CMD_STATE_RUNNING \<and>
      execute_command os lbe cmd11 (t10, w) = Some (Inr (t11, w)) \<and>
      submit_all os lbe (cmds @ [cmd11]) (t, w) = Some (Inr (t11, w)) \<and>
      cmd_queue t11 = cmd_queue t10 \<and>
      lines (history t11) = lines (history t10) @ [queue_full_msg] \<and>
      line_types (history t11) = line_types (history t10) @ [HISTORY_TYPE_RAW] \<and>
      is_locked (input t11) = 1 \<and> cmd_state t11 = CMD_STATE_RUNNING"
proof -
  have c0: "count (cmd_queue t) = 0"
    using assms(3) by (simp add: is_queue_empty_def)
  have e0: "queue_contents (cmd_queue t) = []"
    using c0 by (simp add: queue_contents_def)
  have p2: "\<forall>c \<in> set cmds. c \<noteq> [] \<and> c \<noteq> ''stop'' \<and> c \<noteq> ''manual''"
    using assms(7) by simp
  have p4: "count (cmd_queue t) + int (length cmds) \<le> 10"
    using c0 assms(6) by simp
  from submit_all_queues [OF assms(1) p2 assms(2) p4 assms(4,5), of lbe w]
  obtain t10 where t10: "submit_all os lbe cmds (t, w) = Some (Inr (t10, w))"
    "queue_wf (cmd_queue t10)"
    "queue_contents (cmd_queue t10) = map (take 511) cmds"
    "count (cmd_queue t10) = 10"
    "hist_wf (history t10)"
    "lines (history t10) = lines (history t) @
        map (\<lambda>i. queue_added_msg (int i + 1)) [0..<10]"
    "line_types (history t10) = line_types (history t) @ replicate 10 HISTORY_TYPE_NORMAL"
    "input t10 = input t" "cmd_state t10 = CMD_STATE_RUNNING"
    using c0 e0 assms(1,6) by (auto simp: add.commute)
  have full: "is_queue_full (cmd_queue t10)"
    using t10(4) by (simp add: is_queue_full_def COMMAND_QUEUE_SIZE_def)
  have cmd: "cmd11 \<noteq> []" "cmd11 \<noteq> ''stop''" "cmd11 \<noteq> ''manual''"
    using assms(7) by simp_all
  from execute_running_full [OF t10(9) cmd t10(2) full t10(5) assms(5), of lbe w]
  obtain h where h: "lines h = lines (history t10) @ [queue_full_msg]"
    "line_types h = line_types (history t10) @ [HISTORY_TYPE_RAW]"
    and ex: "execute_command os lbe cmd11 (t10, w) =
        Some (Inr (t10\<lparr>history := h, input := (input t10)\<lparr>is_locked := 1\<rparr>\<rparr>, w))"
    by blast
  let ?t11 = "t10\<lparr>history := h, input := (input t10)\<lparr>is_locked := 1\<rparr>\<rparr>"
  have all: "submit_all os lbe (cmds @ [cmd11]) (t, w) = Some (Inr (?t11, w))"
    using submit_all_snoc [OF t10(1), of cmd11] ex by simp
  show ?thesis
    using t10 h ex all by (intro exI [of _ t10] exI [of _ ?t11]) simp
qed

lemma upt10: "[0..<10] = [0, 1, 2, 3, 4, 5, 6, 7, 8, 9]"
  by code_simp

lemma queue_added_msg_values:
  "queue_added_msg 1 = ''Command added to queue. Queue size: 1/10''"
  "queue_added_msg 2 = ''Command added to queue. Queue size: 2/10''"
  "queue_added_msg 3 = ''Command added to queue. Queue size: 3/10''"
  "queue_added_msg 4 = ''Command added to queue. Queue size: 4/10''"
  "queue_added_msg 5 = ''Command added to queue. Queue size: 5/10''"
  "queue_added_msg 6 = ''Command added to queue. Queue size: 6/10''"
  "queue_added_msg 7 = ''Command added to queue. Queue size: 7/10''"
  "queue_added_msg 8 = ''Command added to queue. Queue size: 8/10''"
  "queue_added_msg 9 = ''Command added to queue. Queue size: 9/10''"
  "queue_added_msg 10 = ''Command added to queue. Queue size: 10/10''"
  by (simp_all add: queue_added_msg_def snprintf_def show_int_def show_nat.simps
      COMMAND_QUEUE_SIZE_def)

lemma queue_added_msgs:
  "map (\<lambda>i. queue_added_msg (int i + 1)) [0..<10] =
     [''Command added to queue. Queue size: 1/10'',
      ''Command added to queue. Queue size: 2/10'',
      ''Command added to queue. Queue size: 3/10'',
      ''Command added to queue. Queue size: 4/10'',
      ''Command added to queue. Queue size: 5/10'',
      ''Command added to queue. Queue size: 6/10'',
      ''Command added to queue. Queue size: 7/10'',
      ''Command added to queue. Queue size: 8/10'',
      ''Command added to queue. Queue size: 9/10'',
      ''Command added to queue. Queue size: 10/10'']"
  unfolding upt10 by (simp add: queue_added_msg_values)

theorem running_submits_are_queued_witness:
  "cmd_state (sample_terminal\<lparr>cmd_state := CMD_STATE_RUNNING, current_process := 4242\<rparr>) =
     CMD_STATE_RUNNING \<and>
   is_queue_empty (cmd_queue (sample_terminal\<lparr>cmd_state := CMD_STATE_RUNNING,
     current_process := 4242\<rparr>)) \<and>
   (\<forall>n. os_realloc_ok sample_os n) \<and>
   (\<exists>t10 t11.
      submit_all sample_os 1
        [''ls'', ''pwd'', ''date'', ''whoami'', ''uname'', ''id'', ''df'', ''ps'', ''w'', ''env'']
        (sample_terminal\<lparr>cmd_state := CMD_STATE_RUNNING, current_process := 4242\<rparr>,
         sample_world0) = Some (Inr (t10, sample_world0)) \<and>
      queue_contents (cmd_queue t10) =
        [''ls'', ''pwd'', ''date'', ''whoami'', ''uname'', ''id'', ''df'', ''ps'', ''w'', ''env''] \<and>
      is_locked (input t10) = 0 \<and>
      execute_command sample_os 1 ''uptime'' (t10, sample_world0) =
        Some (Inr (t11, sample_world0)) \<and>
      cmd_queue t11 = cmd_queue t10 \<and>
      lines (history t11) =
        [''Command added to queue. Queue size: 1/10'',
         ''Command added to queue. Queue size: 2/10'',
         ''Command added to queue. Queue size: 3/10'',
         ''Command added to queue. Queue size: 4/10'',
         ''Command added to queue. Queue size: 5/10'',
         ''Command added to queue. Queue size: 6/10'',
         ''Command added to queue. Queue size: 7/10'',
         ''Command added to queue. Queue size: 8/10'',
         ''Command added to queue. Queue size: 9/10'',
         ''Command added to queue. Queue size: 10/10'',
         ''Command queue is full! Maximum 10 commands allowed.''] \<and>
      is_locked (input t11) = 1)"
proof -
  let ?t = "sample_terminal\<lparr>cmd_state := CMD_STATE_RUNNING, current_process := 4242\<rparr>"
  let ?cmds = "[''ls'', ''pwd'', ''date'', ''whoami'', ''uname'', ''id'', ''df'', ''ps'', ''w'',
    ''env'']"
  have a1: "cmd_state ?t = CMD_STATE_RUNNING" by simp
  have a2: "queue_wf (cmd_queue ?t)" by (simp add: sample_terminal_def queue_wf_init)
  have a3: "is_queue_empty (cmd_queue ?t)"
    by (simp add: sample_terminal_def is_queue_empty_def init_command_queue_def)
  have a4: "hist_wf (history ?t)" by (simp add: sample_terminal_hist_wf)
  have a5: "\<forall>n. os_realloc_ok sample_os n" by (simp add: sample_os_realloc)
  have a6: "length ?cmds = 10" by simp
  have a7: "\<forall>c \<in> set (?cmds @ [''uptime'']). c \<noteq> [] \<and> c \<noteq> ''stop'' \<and> c \<noteq> ''manual''"
    by simp
  from running_submits_are_queued [OF a1 a2 a3 a4 a5 a6 a7, of 1 sample_world0]
  obtain t10 t11 where r:
    "submit_all sample_os 1 ?cmds (?t, sample_world0) = Some (Inr (t10, sample_world0))"
    "queue_contents (cmd_queue t10) = map (take 511) ?cmds"
    "lines (history t10) = lines (history ?t) @
        map (\<lambda>i. queue_added_msg (int i + 1)) [0..<10]"
    "input t10 = input ?t"
    "execute_command sample_os 1 ''uptime'' (t10, sample_world0) =
       Some (Inr (t11, sample_world0))"
    "cmd_queue t11 = cmd_queue t10"
    "lines (history t11) = lines (history t10) @ [queue_full_msg]"
    "is_locked (input t11) = 1"
    by blast
  have l: "lines (history ?t) = []" "is_locked (input ?t) = 0"
    by (simp_all add: sample_terminal_def init_history_buffer_def init_input_state_def)
  show ?thesis
    using a3 a5 r l
    by (intro conjI exI [of _ t10] exI [of _ t11])
      (simp_all add: queue_added_msgs queue_full_msg_def)
qed

section \<open>Properties of closing a terminal\<close>

lemma shift_terminals_length: "length (shift_terminals a cnt i ts) = length ts"
proof (induction a cnt i ts rule: shift_terminals.induct)
  case (1 a cnt i ts)
  then show ?case by (subst shift_terminals.simps) simp
qed

lemma shift_terminals_nth:
  "0 \<le> i \<Longrightarrow> cnt \<le> int (length ts) \<Longrightarrow>
   shift_terminals a cnt i ts ! j =
     (if nat i \<le> j \<and> int j < cnt - 1 then shifted_terminal a (int j) (ts ! Suc j) else ts ! j)"
proof (induction a cnt i ts arbitrary: j rule: shift_terminals.induct)
  case (1 a cnt i ts)
  show ?case
  proof (cases "i < cnt - 1")
    case False
    then show ?thesis using 1(2) by (subst shift_terminals.simps) auto
  next
    case True
    let ?ts = "ts[nat i := shifted_terminal a i (ts ! nat (i + 1))]"
    have i: "nat i < length ts" "nat (i + 1) = Suc (nat i)" "int (nat i) = i"
      using True 1(2,3) by simp_all
    have "shift_terminals a cnt i ts ! j = shift_terminals a cnt (i + 1) ?ts ! j"
      using True by (subst shift_terminals.simps) simp
    also have "\<dots> = (if nat (i + 1) \<le> j \<and> int j < cnt - 1
        then shifted_terminal a (int j) (?ts ! Suc j) else ?ts ! j)"
      using True 1(2,3) by (intro 1(1)) simp_all
    also have "\<dots> = (if nat i \<le> j \<and> int j < cnt - 1
        then shifted_terminal a (int j) (ts ! Suc j) else ts ! j)"
    proof (cases "j = nat i")
      case True
      then show ?thesis using i \<open>i < cnt - 1\<close> by simp
    next
      case False
      then show ?thesis using i by auto
    qed
    finally show ?thesis .
  qed
qed

lemma close_stop_step:
  assumes "cmd_state active \<noteq> CMD_STATE_RUNNING \<or>
      (hist_wf (history active) \<and>
       (hcount (history active) < capacity (history active) \<or>
        os_realloc_ok os (capacity (history active) * 2)))"
  shows "\<exists>active1 w1.
      (if cmd_state active = CMD_STATE_RUNNING
       then stop_current_command os lbe (active, w) else Inr (active, w)) = Inr (active1, w1) \<and>
      split_with active1 = split_with active \<and>
      w1 = (if cmd_state active = CMD_STATE_RUNNING \<and> current_process active > 0
            then os_kill os (current_process active) SIGINT w else w)"
proof (cases "cmd_state active = CMD_STATE_RUNNING")
  case False
  then show ?thesis by simp
next
  case True
  with assms have "hist_wf (history active)"
    "hcount (history active) < capacity (history active) \<or>
        os_realloc_ok os (capacity (history active) * 2)"
    by simp_all
  from stop_current_command_result [OF this, of lbe w]
  obtain h where "stop_current_command os lbe (active, w) =
        Inr (if cmd_state active = CMD_STATE_RUNNING \<and> current_process active > 0
             then (active\<lparr>history := h, cmd_state := CMD_STATE_READY, current_process := 0\<rparr>,
                   os_kill os (current_process active) SIGINT w)
             else (active\<lparr>history := h\<rparr>, w))"
    by blast
  then show ?thesis using True by auto
qed

lemma close_single_terminal:
  "terminal_count tm \<le> 1 \<Longrightarrow> close_current_terminal os lbe (tm, w) = Inr (tm, w)"
  by (simp add: close_current_terminal_def)

text \<open>
  What the close does to the terminals that stay, for \<open>N > 1\<close> terminals with ids
  \<open>0..N-1\<close> and the active terminal \<open>a\<close> closed: \<open>N - 1\<close> terminals with ids
  \<open>0..N-2\<close>. The terminal now at index \<open>j\<close> is the one that was at \<open>k = j\<close> (for
  \<open>j < a\<close>) or at \<open>k = j + 1\<close> (otherwise), with its reference cleared when it was the
  partner of the closed terminal. A terminal below \<open>a\<close> is otherwise as it was, its
  partner reference included; a moved terminal is renumbered by \<open>shifted_terminal\<close>.
  The active index \<open>N - 1\<close> becomes \<open>N - 2\<close>, any other stays.
\<close>

lemma close_current_terminal_effect:
  assumes n: "1 < terminal_count tm" "terminal_count tm \<le> int (length (terminals tm))"
    and a: "0 \<le> active_terminal tm" "active_terminal tm < terminal_count tm"
    and ids: "\<forall>j < nat (terminal_count tm). term_id (terminals tm ! j) = int j"
    and p: "partner = split_with (terminals tm ! nat (active_terminal tm))"
      "partner = - 1 \<or> 0 \<le> partner"
    and s: "cmd_state (terminals tm ! nat (active_terminal tm)) \<noteq> CMD_STATE_RUNNING \<or>
      (hist_wf (history (terminals tm ! nat (active_terminal tm))) \<and>
       (hcount (history (terminals tm ! nat (active_terminal tm))) <
          capacity (history (terminals tm ! nat (active_terminal tm))) \<or>
        os_realloc_ok os (capacity (history (terminals tm ! nat (active_terminal tm))) * 2)))"
  shows "\<exists>tm' w'. close_current_terminal os lbe (tm, w) = Inr (tm', w') \<and>
       terminal_count tm' = terminal_count tm - 1 \<and>
       active_terminal tm' =
         (if active_terminal tm = terminal_count tm - 1 then terminal_count tm - 2
          else active_terminal tm) \<and>
       (\<forall>j < nat (terminal_count tm - 1).
          let k = (if int j < active_terminal tm then j else Suc j);
              old = (if int k = partner then (terminals tm ! k)\<lparr>split_with := - 1\<rparr>
                     else terminals tm ! k)
          in term_id (terminals tm' ! j) = int j \<and>
             terminals tm' ! j =
               (if int j < active_terminal tm then old
                else shifted_terminal (active_terminal tm) (int j) old))"
proof -
  let ?a = "active_terminal tm" and ?N = "terminal_count tm" and ?ts = "terminals tm"
  let ?active = "?ts ! nat ?a"
  from close_stop_step [OF s, of lbe w]
  obtain active1 w1 where st: "(if cmd_state ?active = CMD_STATE_RUNNING
       then stop_current_command os lbe (?active, w) else Inr (?active, w)) = Inr (active1, w1)"
    and sp: "split_with active1 = split_with ?active"
    by blast
  define ts1 where "ts1 = ?ts[nat ?a := active1]"
  define ts2 where "ts2 = (if partner \<noteq> - 1
      then ts1[nat partner := (ts1 ! nat partner)\<lparr>split_with := - 1\<rparr>] else ts1)"
  define ts3 where "ts3 = shift_terminals ?a ?N ?a ts2"
  define tm' where "tm' = tm\<lparr>terminals := ts3, terminal_count := ?N - 1,
      active_terminal := (if ?a = ?N - 1 then ?N - 2 else ?a)\<rparr>"
  have la: "nat ?a < length ?ts" using a n by simp
  have p1: "split_with (ts1 ! nat ?a) = partner"
    using la sp p(1) by (simp add: ts1_def)
  have cl: "close_current_terminal os lbe (tm, w) = Inr (tm', w1)"
    using n(1) a st p1
    by (auto simp: close_current_terminal_def Let_def tm'_def ts3_def ts2_def ts1_def)
  have len2: "length ts2 = length ?ts" by (simp add: ts2_def ts1_def)
  have ts2_other: "ts2 ! k = (if int k = partner then (?ts ! k)\<lparr>split_with := - 1\<rparr> else ?ts ! k)"
    if "k < length ?ts" "k \<noteq> nat ?a" for k
  proof (cases "partner = - 1")
    case True
    then show ?thesis using that by (simp add: ts2_def ts1_def)
  next
    case False
    with p(2) have "0 \<le> partner" by simp
    then have "(k = nat partner) = (int k = partner)" by auto
    then show ?thesis using that False by (auto simp: ts2_def ts1_def)
  qed
  have nth3: "ts3 ! j = (if nat ?a \<le> j \<and> int j < ?N - 1
      then shifted_terminal ?a (int j) (ts2 ! Suc j) else ts2 ! j)" for j
    unfolding ts3_def using a(1) n(2) len2 by (intro shift_terminals_nth) simp_all
  have each: "let k = (if int j < ?a then j else Suc j);
              old = (if int k = partner then (?ts ! k)\<lparr>split_with := - 1\<rparr> else ?ts ! k)
          in term_id (terminals tm' ! j) = int j \<and>
             terminals tm' ! j =
               (if int j < ?a then old else shifted_terminal ?a (int j) old)"
    if j: "j < nat (?N - 1)" for j
  proof (cases "int j < ?a")
    case True
    then have k: "j < length ?ts" "j \<noteq> nat ?a" using la by simp_all
    have "term_id (?ts ! j) = int j" using ids j by simp
    then show ?thesis
      using True a(1) nth3 [of j] ts2_other [OF k]
      by (auto simp: tm'_def Let_def)
  next
    case False
    have k: "Suc j < length ?ts" "Suc j \<noteq> nat ?a" using j n(2) False a(1) by simp_all
    have r: "nat ?a \<le> j \<and> int j < ?N - 1" using False j a(1) by linarith
    have "terminals tm' ! j = shifted_terminal ?a (int j) (ts2 ! Suc j)"
      using nth3 [of j] r by (simp add: tm'_def)
    then show ?thesis
      using False ts2_other [OF k]
      by (auto simp: Let_def shifted_terminal_def)
  qed
  show ?thesis
    using cl each by (intro exI [of _ tm'] exI [of _ w1]) (simp add: tm'_def)
qed

text \<open>
  Closing terminal 0 of \<open>pairs_manager\<close>: its partner has the reference cleared and
  becomes terminal 0; the pair 2 and 3 becomes the pair 1 and 2.
\<close>

lemma close_pairs_manager:
  "\<exists>tm' w'. close_current_terminal sample_os 1 (pairs_manager, sample_world0) = Inr (tm', w') \<and>
      terminal_count tm' = 3 \<and> active_terminal tm' = 0 \<and>
      term_id (terminals tm' ! 0) = 0 \<and> split_with (terminals tm' ! 0) = - 1 \<and>
      term_id (terminals tm' ! 1) = 1 \<and> split_with (terminals tm' ! 1) = 2 \<and>
      term_id (terminals tm' ! 2) = 2 \<and> split_with (terminals tm' ! 2) = 1"
proof -
  let ?tm = pairs_manager
  have n: "1 < terminal_count ?tm" "terminal_count ?tm \<le> int (length (terminals ?tm))"
    by (simp_all add: pairs_manager_def)
  have a: "0 \<le> active_terminal ?tm" "active_terminal ?tm < terminal_count ?tm"
    by (simp_all add: pairs_manager_def)
  have ids: "\<forall>j < nat (terminal_count ?tm). term_id (terminals ?tm ! j) = int j"
  proof (intro allI impI)
    fix j assume "j < nat (terminal_count ?tm)"
    then have "j = 0 \<or> j = 1 \<or> j = 2 \<or> j = 3"
      by (auto simp: pairs_manager_def)
    then show "term_id (terminals ?tm ! j) = int j"
      by (auto simp: pairs_manager_def sample_terminal_def)
  qed
  have p: "1 = split_with (terminals ?tm ! nat (active_terminal ?tm))"
    "(1::int) = - 1 \<or> 0 \<le> (1::int)"
    by (simp_all add: pairs_manager_def)
  have s: "cmd_state (terminals ?tm ! nat (active_terminal ?tm)) \<noteq> CMD_STATE_RUNNING \<or>
      (hist_wf (history (terminals ?tm ! nat (active_terminal ?tm))) \<and>
       (hcount (history (terminals ?tm ! nat (active_terminal ?tm))) <
          capacity (history (terminals ?tm ! nat (active_terminal ?tm))) \<or>
        os_realloc_ok sample_os
          (capacity (history (terminals ?tm ! nat (active_terminal ?tm))) * 2)))"
    by (simp add: pairs_manager_def sample_terminal_def CMD_STATE_READY_def
        CMD_STATE_RUNNING_def)
  from close_current_terminal_effect [OF n a ids p s, of 1 sample_world0]
  obtain tm' w' where c: "close_current_terminal sample_os 1 (?tm, sample_world0) = Inr (tm', w')"
    "terminal_count tm' = terminal_count ?tm - 1"
    "active_terminal tm' =
       (if active_terminal ?tm = terminal_count ?tm - 1 then terminal_count ?tm - 2
        else active_terminal ?tm)"
    and e: "\<forall>j < nat (terminal_count ?tm - 1).
          let k = (if int j < active_terminal ?tm then j else Suc j);
              old = (if int k = 1 then (terminals ?tm ! k)\<lparr>split_with := - 1\<rparr>
                     else terminals ?tm ! k)
          in term_id (terminals tm' ! j) = int j \<and>
             terminals tm' ! j =
               (if int j < active_terminal ?tm then old
                else shifted_terminal (active_terminal ?tm) (int j) old)"
    by blast
  have j0: "term_id (terminals tm' ! 0) = 0 \<and> split_with (terminals tm' ! 0) = - 1"
    using e [rule_format, of 0] by (simp add: pairs_manager_def Let_def shifted_terminal_def)
  have j1: "term_id (terminals tm' ! 1) = 1 \<and> split_with (terminals tm' ! 1) = 2"
    using e [rule_format, of 1] by (simp add: pairs_manager_def Let_def shifted_terminal_def)
  have j2: "term_id (terminals tm' ! 2) = 2 \<and> split_with (terminals tm' ! 2) = 1"
    using e [rule_format, of 2] by (simp add: pairs_manager_def Let_def shifted_terminal_def)
  show ?thesis
    using c j0 j1 j2
    by (intro exI [of _ tm'] exI [of _ w']) (simp add: pairs_manager_def)
qed

text \<open>
  C5 at a failing input. In \<open>split_manager\<close> the terminals 0 and 2 are split partners
  and the unsplit terminal 1 is active. Closing it leaves two terminals with ids 0 and
  1; the former terminal 2 is now terminal 1 and refers to its partner 0, but terminal
  0 still refers to index 2, where no terminal is left: the loop renumbers the
  references held by the moved terminals only, so the reference of a terminal below
  the removed one to a terminal above it is not decremented. In \<open>crossed_manager\<close>
  (partners 0 and 3, partners 1 and 2, terminal 1 active) terminal 0 keeps the
  reference 3 with three terminals left.
\<close>

theorem close_leaves_stale_partner_reference:
  "terminal_count split_manager = 3 \<and> active_terminal split_manager = 1 \<and>
   map (\<lambda>t. (term_id t, split_with t)) (terminals split_manager) =
     [(0, 2), (1, - 1), (2, 0)] \<and>
   map_sum id
     (\<lambda>s. (terminal_count (fst s), active_terminal (fst s),
           map (\<lambda>t. (term_id t, split_with t)) (take 2 (terminals (fst s)))))
     (close_current_terminal sample_os 1 (split_manager, sample_world0)) =
     Inr (2, 1, [(0, 2), (1, 0)]) \<and>
   map (\<lambda>t. (term_id t, split_with t)) (terminals crossed_manager) =
     [(0, 3), (1, 2), (2, 1), (3, 0)] \<and>
   map_sum id
     (\<lambda>s. (terminal_count (fst s), active_terminal (fst s),
           map (\<lambda>t. (term_id t, split_with t)) (take 3 (terminals (fst s)))))
     (close_current_terminal sample_os 1 (crossed_manager, sample_world0)) =
     Inr (3, 1, [(0, 3), (1, - 1), (2, 0)])"
  by (simp add: split_manager_def crossed_manager_def close_current_terminal_def
      sample_terminal_def CMD_STATE_READY_def CMD_STATE_RUNNING_def Let_def
      shift_terminals.simps shifted_terminal_def)

section \<open>Properties of the directory change\<close>


lemma cd_not_special:
  assumes "take 3 cmd = ''cd ''"
  shows "cmd \<noteq> []" "cmd \<noteq> ''stop''" "cmd \<noteq> ''manual''"
  using assms by auto







section \<open>Properties of running a command\<close>

lemma log_lines_always:
  assumes "hist_wf (history t)" and "\<forall>n. os_realloc_ok os n"
  shows "\<exists>h. log_lines os lbe t ls line_type = Inr (t\<lparr>history := h\<rparr>) \<and> hist_wf h \<and>
           lines h = lines (history t) @
             map (\<lambda>s. if lbe = 0 then collapse_line_breaks s else s) ls \<and>
           line_types h = line_types (history t) @ replicate (length ls) line_type"
  using assms(1)
proof (induction ls arbitrary: t)
  case Nil
  then show ?case by (intro exI [of _ "history t"]) simp
next
  case (Cons s ls)
  from log_line_always [OF Cons.prems assms(2), of lbe s line_type]
  obtain h1 where h1: "log_line os lbe t s line_type = Inr (t\<lparr>history := h1\<rparr>)" "hist_wf h1"
    "lines h1 = lines (history t) @ [if lbe = 0 then collapse_line_breaks s else s]"
    "line_types h1 = line_types (history t) @ [line_type]"
    by blast
  have "hist_wf (history (t\<lparr>history := h1\<rparr>))" using h1(2) by simp
  from Cons.IH [OF this]
  obtain h where h: "log_lines os lbe (t\<lparr>history := h1\<rparr>) ls line_type = Inr (t\<lparr>history := h\<rparr>)"
    "hist_wf h"
    "lines h = lines h1 @ map (\<lambda>s. if lbe = 0 then collapse_line_breaks s else s) ls"
    "line_types h = line_types h1 @ replicate (length ls) line_type"
    by auto
  show ?case
    using h1 h by (intro exI [of _ h]) (simp add: replicate_app_Cons_same)
qed

lemma strtok_all_no_delim:
  "d \<notin> set tok \<Longrightarrow> \<forall>l \<in> set (strtok_all d tok s). d \<notin> set l"
proof (induction s arbitrary: tok)
  case Nil
  then show ?case by simp
next
  case (Cons c s)
  have e: "\<forall>l \<in> set (strtok_all d [] s). d \<notin> set l"
    using Cons.IH [of "[]"] by simp
  show ?case
  proof (cases "c = d")
    case True
    then show ?thesis using e Cons.prems by simp
  next
    case False
    then have "d \<notin> set (tok @ [c])" using Cons.prems by simp
    from Cons.IH [OF this] show ?thesis using False by simp
  qed
qed

lemma strip_escape_loop_subset: "set (strip_escape_loop e s) \<subseteq> set s"
  by (induction s arbitrary: e) auto

lemma chunk_lines_plain:
  assumes "l \<in> set (chunk_lines buffer)"
  shows "CHR 0x0A \<notin> set l"
proof -
  from assms obtain tok where tok: "tok \<in> set (strtok_all (CHR 0x0A) []
      (takeWhile (\<lambda>c. c \<noteq> CHR 0x00) buffer))"
    and l: "l = strip_escape_codes (strncpy_term 1024 tok)"
    by (auto simp: chunk_lines_def)
  have "CHR 0x0A \<notin> set tok"
    using tok strtok_all_no_delim [of "CHR 0x0A" "[]"] by simp
  then have "CHR 0x0A \<notin> set (strncpy_term 1024 tok)"
    unfolding strncpy_term_def by (meson in_set_takeD)
  then show ?thesis
    unfolding l strip_escape_codes_def using strip_escape_loop_subset by fastforce
qed

lemma chunk_lines_stored:
  "map (\<lambda>s. if lbe = 0 then collapse_line_breaks s else s) (chunk_lines buffer) =
   chunk_lines buffer"
  by (rule map_idI) (simp add: chunk_lines_plain collapse_line_breaks_id)

lemma capture_output_always:
  assumes "hist_wf (history t)" and "\<forall>n. os_realloc_ok os n"
  shows "\<exists>h. capture_output os lbe reads t = Inr (t\<lparr>history := h\<rparr>) \<and> hist_wf h \<and>
           lines h = lines (history t) @ captured_lines reads \<and>
           line_types h = line_types (history t) @
             replicate (length (captured_lines reads)) HISTORY_TYPE_NORMAL"
  using assms(1)
proof (induction reads arbitrary: t)
  case Nil
  then show ?case by (intro exI [of _ "history t"]) simp
next
  case (Cons buffer reads)
  show ?case
  proof (cases "length buffer = 0")
    case True
    then show ?thesis using Cons.prems by (intro exI [of _ "history t"]) simp
  next
    case False
    from log_lines_always [OF Cons.prems assms(2), of lbe "chunk_lines buffer" HISTORY_TYPE_NORMAL]
    obtain h1 where h1: "log_lines os lbe t (chunk_lines buffer) HISTORY_TYPE_NORMAL =
        Inr (t\<lparr>history := h1\<rparr>)" "hist_wf h1"
      "lines h1 = lines (history t) @ chunk_lines buffer"
      "line_types h1 = line_types (history t) @
         replicate (length (chunk_lines buffer)) HISTORY_TYPE_NORMAL"
      by (auto simp: chunk_lines_stored)
    have "hist_wf (history (t\<lparr>history := h1\<rparr>))" using h1(2) by simp
    from Cons.IH [OF this]
    obtain h where h: "capture_output os lbe reads (t\<lparr>history := h1\<rparr>) = Inr (t\<lparr>history := h\<rparr>)"
      "hist_wf h" "lines h = lines h1 @ captured_lines reads"
      "line_types h = line_types h1 @
         replicate (length (captured_lines reads)) HISTORY_TYPE_NORMAL"
      by auto
    show ?thesis
      using False h1 h by (intro exI [of _ h]) (simp add: replicate_add)
  qed
qed

lemma finish_lines_stored:
  "map (\<lambda>s. if lbe = 0 then collapse_line_breaks s else s) (finish_lines status) =
   finish_lines status"
proof (rule map_idI)
  fix l assume "l \<in> set (finish_lines status)"
  then have "l = snprintf 128 (''Command exited with status: '' @ show_int (WEXITSTATUS status)) \<or>
      l = snprintf 128 (''Command terminated by signal: '' @ show_int (WTERMSIG status))"
    by (auto simp: finish_lines_def split: if_splits)
  moreover have "CHR 0x0A \<notin> set (''Command exited with status: '' @ show_int i)"
    "CHR 0x0A \<notin> set (''Command terminated by signal: '' @ show_int i)" for i
    using show_int_no_newline by simp_all
  ultimately have "CHR 0x0A \<notin> set l"
    unfolding snprintf_def by (metis in_set_takeD)
  then show "(if lbe = 0 then collapse_line_breaks l else l) = l"
    by (simp add: collapse_line_breaks_id)
qed

lemma run_finish_always:
  assumes "hist_wf (history t)" and "\<forall>n. os_realloc_ok os n"
  shows "\<exists>h. run_finish os lbe status t =
             Inr (t\<lparr>history := h, cmd_state := CMD_STATE_READY, current_process := 0\<rparr>) \<and>
           hist_wf h \<and> lines h = lines (history t) @ finish_lines status \<and>
           line_types h = line_types (history t) @
             replicate (length (finish_lines status)) HISTORY_TYPE_NORMAL"
proof -
  let ?t1 = "t\<lparr>cmd_state := CMD_STATE_READY, current_process := 0\<rparr>"
  have "hist_wf (history ?t1)" using assms(1) by simp
  from log_lines_always [OF this assms(2), of lbe "finish_lines status" HISTORY_TYPE_NORMAL]
  obtain h where h: "log_lines os lbe ?t1 (finish_lines status) HISTORY_TYPE_NORMAL =
      Inr (?t1\<lparr>history := h\<rparr>)" "hist_wf h"
    "lines h = lines (history t) @ finish_lines status"
    "line_types h = line_types (history t) @
       replicate (length (finish_lines status)) HISTORY_TYPE_NORMAL"
    by (auto simp: finish_lines_stored)
  have "run_finish os lbe status t = log_lines os lbe ?t1 (finish_lines status) HISTORY_TYPE_NORMAL"
    by (simp add: run_finish_def finish_lines_def Let_def split: sum.splits)
  then show ?thesis using h by (intro exI [of _ h]) simp
qed

lemma run_captured_spawned:
  assumes "os_spawn os cmd w = (Spawned pid fdopen_ok reads status, w1)"
    and "hist_wf (history t)" and "\<forall>n. os_realloc_ok os n"
  shows "\<exists>h. hist_wf h \<and>
      lines h = lines (history t) @
        (if fdopen_ok then captured_lines reads else []) @ finish_lines status \<and>
      line_types h = line_types (history t) @
        replicate (length ((if fdopen_ok then captured_lines reads else []) @
          finish_lines status)) HISTORY_TYPE_NORMAL \<and>
      run_captured os lbe cmd (t, w) =
        Inr (Drain (t\<lparr>history := h, cmd_state := CMD_STATE_READY, current_process := 0\<rparr>, w1))"
proof -
  let ?t0 = "run_start pid t"
  have wf0: "hist_wf (history ?t0)" using assms(2) by (simp add: run_start_def)
  obtain h1 where h1: "(if fdopen_ok then capture_output os lbe reads ?t0 else Inr ?t0) =
      Inr (?t0\<lparr>history := h1\<rparr>)" "hist_wf h1"
    "lines h1 = lines (history t) @ (if fdopen_ok then captured_lines reads else [])"
    "line_types h1 = line_types (history t) @
       replicate (length (if fdopen_ok then captured_lines reads else [])) HISTORY_TYPE_NORMAL"
  proof (cases fdopen_ok)
    case True
    from capture_output_always [OF wf0 assms(3), of lbe reads] obtain h where
      "capture_output os lbe reads ?t0 = Inr (?t0\<lparr>history := h\<rparr>)" "hist_wf h"
      "lines h = lines (history ?t0) @ captured_lines reads"
      "line_types h = line_types (history ?t0) @
         replicate (length (captured_lines reads)) HISTORY_TYPE_NORMAL"
      by blast
    then show ?thesis using True that [of h] by (simp add: run_start_def)
  next
    case False
    then show ?thesis using that [of "history t"] assms(2) by (simp add: run_start_def)
  qed
  have "hist_wf (history (?t0\<lparr>history := h1\<rparr>))" using h1(2) by simp
  from run_finish_always [OF this assms(3), of lbe status]
  obtain h where h: "run_finish os lbe status (?t0\<lparr>history := h1\<rparr>) =
      Inr (?t0\<lparr>history := h, cmd_state := CMD_STATE_READY, current_process := 0\<rparr>)"
    "hist_wf h" "lines h = lines h1 @ finish_lines status"
    "line_types h = line_types h1 @ replicate (length (finish_lines status)) HISTORY_TYPE_NORMAL"
    by auto
  have "run_captured os lbe cmd (t, w) =
      Inr (Drain (?t0\<lparr>history := h, cmd_state := CMD_STATE_READY, current_process := 0\<rparr>, w1))"
    using assms(1) h1(1) h(1) by (simp add: run_captured_def)
  then show ?thesis
    using h(2-) h1(3,4)
    by (intro exI [of _ h]) (simp add: run_start_def replicate_add)
qed

lemma execute_step_captured:
  assumes "cmd_state t \<noteq> CMD_STATE_RUNNING"
    and "cmd \<noteq> []" "cmd \<noteq> ''stop''" "cmd \<noteq> ''manual''" "take 3 cmd \<noteq> ''cd ''"
      "cmd \<noteq> ''cd''" "\<not> is_interactive cmd"
    and "os_spawn os cmd w = (Spawned pid fdopen_ok reads status, w1)"
    and "hist_wf (history t)" and "\<forall>n. os_realloc_ok os n"
  shows "\<exists>h. hist_wf h \<and>
      lines h = lines (history t) @
        [if lbe = 0 then collapse_line_breaks (snprintf 512 (os_clock os w @ '' '' @ cmd))
         else snprintf 512 (os_clock os w @ '' '' @ cmd)] @
        (if fdopen_ok then captured_lines reads else []) @ finish_lines status \<and>
      line_types h = line_types (history t) @ [HISTORY_TYPE_COMMAND] @
        replicate (length ((if fdopen_ok then captured_lines reads else []) @
          finish_lines status)) HISTORY_TYPE_NORMAL \<and>
      execute_step os lbe cmd (t, w) =
        Inr (Drain ((record_command cmd t)
          \<lparr>history := h, cmd_state := CMD_STATE_READY, current_process := 0\<rparr>, w1))"
proof -
  let ?t0 = "record_command cmd t"
  let ?echo = "snprintf 512 (os_clock os w @ '' '' @ cmd)"
  have t0: "history ?t0 = history t"
    by (simp add: record_command_def Let_def)
  then have "hist_wf (history ?t0)" using assms(9) by simp
  from log_line_always [OF this assms(10), of lbe ?echo HISTORY_TYPE_COMMAND]
  obtain h1 where h1: "log_line os lbe ?t0 ?echo HISTORY_TYPE_COMMAND = Inr (?t0\<lparr>history := h1\<rparr>)"
    "hist_wf h1"
    "lines h1 = lines (history t) @ [if lbe = 0 then collapse_line_breaks ?echo else ?echo]"
    "line_types h1 = line_types (history t) @ [HISTORY_TYPE_COMMAND]"
    using t0 by auto
  have "hist_wf (history (?t0\<lparr>history := h1\<rparr>))" using h1(2) by simp
  from run_captured_spawned [OF assms(8) this assms(10), of lbe]
  obtain h where h: "hist_wf h"
    "lines h = lines h1 @ (if fdopen_ok then captured_lines reads else []) @ finish_lines status"
    "line_types h = line_types h1 @
        replicate (length ((if fdopen_ok then captured_lines reads else []) @
          finish_lines status)) HISTORY_TYPE_NORMAL"
    "run_captured os lbe cmd (?t0\<lparr>history := h1\<rparr>, w) =
        Inr (Drain (?t0\<lparr>history := h, cmd_state := CMD_STATE_READY, current_process := 0\<rparr>, w1))"
    by auto
  have "execute_step os lbe cmd (t, w) = run_captured os lbe cmd (?t0\<lparr>history := h1\<rparr>, w)"
    using assms(1-7) h1(1)
    by (simp add: execute_step_def is_command_running_def Let_def)
  then show ?thesis
    using h h1(3,4) by (intro exI [of _ h]) simp
qed

lemma log_line_only_history:
  "log_line os lbe t s line_type = Inr t' \<Longrightarrow> \<exists>h. t' = t\<lparr>history := h\<rparr>"
  by (auto simp: log_line_def split: sum.splits)

lemma log_lines_only_history:
  "log_lines os lbe t ls line_type = Inr t' \<Longrightarrow> \<exists>h. t' = t\<lparr>history := h\<rparr>"
proof (induction ls arbitrary: t)
  case Nil
  then show ?case by (auto intro: exI [of _ "history t"])
next
  case (Cons s ls)
  then obtain t1 where t1: "log_line os lbe t s line_type = Inr t1"
    and r: "log_lines os lbe t1 ls line_type = Inr t'"
    by (auto split: sum.splits)
  from log_line_only_history [OF t1] Cons.IH [OF r] show ?case by auto
qed

lemma capture_output_only_history:
  "capture_output os lbe reads t = Inr t' \<Longrightarrow> \<exists>h. t' = t\<lparr>history := h\<rparr>"
proof (induction reads arbitrary: t)
  case Nil
  then show ?case by (auto intro: exI [of _ "history t"])
next
  case (Cons buffer reads)
  show ?case
  proof (cases "length buffer = 0")
    case True
    then show ?thesis using Cons.prems by (auto intro: exI [of _ "history t"])
  next
    case False
    with Cons.prems obtain t1 where
      t1: "log_lines os lbe t (chunk_lines buffer) HISTORY_TYPE_NORMAL = Inr t1"
      and r: "capture_output os lbe reads t1 = Inr t'"
      by (auto split: sum.splits)
    from log_lines_only_history [OF t1] Cons.IH [OF r] show ?thesis by auto
  qed
qed

lemma run_finish_only_history:
  "run_finish os lbe status t = Inr t' \<Longrightarrow>
   \<exists>h. t' = t\<lparr>history := h, cmd_state := CMD_STATE_READY, current_process := 0\<rparr>"
proof -
  assume a: "run_finish os lbe status t = Inr t'"
  let ?t1 = "t\<lparr>cmd_state := CMD_STATE_READY, current_process := 0\<rparr>"
  have "run_finish os lbe status t = log_lines os lbe ?t1 (finish_lines status) HISTORY_TYPE_NORMAL"
    by (simp add: run_finish_def finish_lines_def Let_def split: sum.splits)
  with a have "log_lines os lbe ?t1 (finish_lines status) HISTORY_TYPE_NORMAL = Inr t'"
    by simp
  from log_lines_only_history [OF this] obtain h where "t' = ?t1\<lparr>history := h\<rparr>"
    by blast
  then show ?thesis by (intro exI [of _ h]) simp
qed

lemma run_captured_drain:
  assumes "run_captured os lbe cmd (t, w) = Inr (Drain (t1, w1))"
  shows "\<exists>h. t1 = t\<lparr>history := h, cmd_state := CMD_STATE_READY, current_process := 0\<rparr>"
proof -
  obtain r w' where sp: "os_spawn os cmd w = (r, w')" by (cases "os_spawn os cmd w")
  show ?thesis
  proof (cases r)
    case (PipeFailed e)
    then show ?thesis using assms sp by (simp add: run_captured_def split: sum.splits)
  next
    case (ForkFailed e)
    then show ?thesis using assms sp by (simp add: run_captured_def split: sum.splits)
  next
    case (Spawned pid fdopen_ok reads status)
    with assms sp obtain t2 where
      c: "(if fdopen_ok then capture_output os lbe reads (run_start pid t)
           else Inr (run_start pid t)) = Inr t2"
      and f: "run_finish os lbe status t2 = Inr t1"
      by (auto simp: run_captured_def split: sum.splits)
    have "\<exists>h. t2 = (run_start pid t)\<lparr>history := h\<rparr>"
    proof (cases fdopen_ok)
      case True
      then show ?thesis using c capture_output_only_history by auto
    next
      case False
      then show ?thesis using c by (auto intro: exI [of _ "history (run_start pid t)"])
    qed
    with run_finish_only_history [OF f] show ?thesis
      by (auto simp: run_start_def)
  qed
qed

lemma execute_step_drain:
  assumes "execute_step os lbe cmd (t, w) = Inr (Drain (t1, w1))"
  shows "cmd_queue t1 = cmd_queue t \<and> cmd_state t1 = CMD_STATE_READY"
proof -
  let ?t0 = "record_command cmd t"
  have q0: "cmd_queue ?t0 = cmd_queue t" by (simp add: record_command_def Let_def)
  from assms obtain t2 where
    l: "log_line os lbe ?t0 (snprintf 512 (os_clock os w @ '' '' @ cmd)) HISTORY_TYPE_COMMAND =
        Inr t2"
    and r: "run_captured os lbe cmd (t2, w) = Inr (Drain (t1, w1))"
    by (auto simp: execute_step_def returning_def Let_def split: if_splits sum.splits option.splits)
  from log_line_only_history [OF l] run_captured_drain [OF r] q0
  show ?thesis by auto
qed

lemma get_from_queue_count:
  "get_from_queue q = Some (c, q') \<Longrightarrow> count q' = count q - 1 \<and> count q \<noteq> 0"
  by (auto simp: get_from_queue_def is_queue_empty_def update_queue_state_def Let_def
      split: if_splits)

lemma execute_command_terminates:
  "0 \<le> count (cmd_queue t) \<Longrightarrow> \<exists>r. execute_command os lbe cmd (t, w) = Some r"
proof (induction "nat (count (cmd_queue t))" arbitrary: t w cmd)
  case 0
  then have e: "count (cmd_queue t) = 0" by simp
  show ?case
  proof (cases "execute_step os lbe cmd (t, w)")
    case (Inl e)
    then show ?thesis by (subst execute_command.simps) simp
  next
    case (Inr out)
    show ?thesis
    proof (cases out)
      case (Return s1)
      then show ?thesis using Inr by (subst execute_command.simps) simp
    next
      case (Drain s1)
      then have "execute_step os lbe cmd (t, w) = Inr (Drain (fst s1, snd s1))"
        using Inr by simp
      from execute_step_drain [OF this] e have "is_queue_empty (cmd_queue (fst s1))"
        by (simp add: is_queue_empty_def)
      then show ?thesis using Inr Drain by (subst execute_command.simps) simp
    qed
  qed
next
  case (Suc n)
  show ?case
  proof (cases "execute_step os lbe cmd (t, w)")
    case (Inl e)
    then show ?thesis by (subst execute_command.simps) simp
  next
    case (Inr out)
    show ?thesis
    proof (cases out)
      case (Return s1)
      then show ?thesis using Inr by (subst execute_command.simps) simp
    next
      case (Drain s1)
      then have "execute_step os lbe cmd (t, w) = Inr (Drain (fst s1, snd s1))"
        using Inr by simp
      from execute_step_drain [OF this]
      have q: "cmd_queue (fst s1) = cmd_queue t" by simp
      show ?thesis
      proof (cases "get_from_queue (cmd_queue (fst s1))")
        case None
        then show ?thesis using Inr Drain by (subst execute_command.simps) simp
      next
        case (Some a)
        obtain next_cmd q' where a: "a = (next_cmd, q')" by (cases a)
        from get_from_queue_count [OF Some [unfolded a]] q
        have c: "count q' = count (cmd_queue t) - 1" by simp
        have "n = nat (count (cmd_queue (unlock_after_dequeue q' (fst s1))))"
          "0 \<le> count (cmd_queue (unlock_after_dequeue q' (fst s1)))"
          using Suc(2,3) c by (simp_all add: unlock_after_dequeue_def Let_def)
        from Suc(1) [OF this, of next_cmd "snd s1"]
        show ?thesis
          using Inr Drain Some a by (subst execute_command.simps) auto
      qed
    qed
  qed
qed

lemma execute_command_drain:
  assumes "execute_step os lbe cmd (t, w) = Inr (Drain (t1, w1))"
  shows "execute_command os lbe cmd (t, w) = process_command_queue os lbe (t1, w1)"
  using assms
  by (subst execute_command.simps) (simp add: process_command_queue_def split: option.splits)

lemma get_from_queue_None: "get_from_queue q = None \<longleftrightarrow> is_queue_empty q"
  by (simp add: get_from_queue_def Let_def)

text \<open>
  C3. A captured command, submitted while none runs and with the pipe and the child
  created: after the output is read and the child waited for, the terminal \<open>t1\<close> has
  status ready and process id 0, with the queue as before. Then
  \<open>process_command_queue\<close> runs on it: with an empty queue the call ends there; with
  a pending entry, exactly that one entry is dequeued, the lock flag is cleared when
  the queue's state is then normal, and the call continues as \<open>execute_command\<close> on
  the dequeued command. With a count that is not negative the call returns.
\<close>

theorem captured_run_drains_queue:
  assumes "cmd_state t \<noteq> CMD_STATE_RUNNING"
    and "cmd \<noteq> []" "cmd \<noteq> ''stop''" "cmd \<noteq> ''manual''" "take 3 cmd \<noteq> ''cd ''"
      "cmd \<noteq> ''cd''" "\<not> is_interactive cmd"
    and "os_spawn os cmd w = (Spawned pid fdopen_ok reads status, w1)"
    and "hist_wf (history t)" and "\<forall>n. os_realloc_ok os n"
    and "0 \<le> count (cmd_queue t)"
  shows "\<exists>t1. cmd_state t1 = CMD_STATE_READY \<and> current_process t1 = 0 \<and>
      cmd_queue t1 = cmd_queue t \<and> input t1 = input (record_command cmd t) \<and>
      execute_command os lbe cmd (t, w) = process_command_queue os lbe (t1, w1) \<and>
      (\<exists>r. execute_command os lbe cmd (t, w) = Some r) \<and>
      (case get_from_queue (cmd_queue t) of
         None \<Rightarrow> execute_command os lbe cmd (t, w) = Some (Inr (t1, w1))
       | Some (next_cmd, q) \<Rightarrow>
           count q = count (cmd_queue t) - 1 \<and>
           execute_command os lbe cmd (t, w) =
             execute_command os lbe next_cmd
               (t1\<lparr>cmd_queue := q,
                   input := (if state q = QUEUE_NORMAL then (input t1)\<lparr>is_locked := 0\<rparr>
                             else input t1)\<rparr>, w1))"
proof -
  from execute_step_captured [OF assms(1-10), of lbe]
  obtain h where st: "execute_step os lbe cmd (t, w) =
        Inr (Drain ((record_command cmd t)
          \<lparr>history := h, cmd_state := CMD_STATE_READY, current_process := 0\<rparr>, w1))"
    by blast
  let ?t1 = "(record_command cmd t)
      \<lparr>history := h, cmd_state := CMD_STATE_READY, current_process := 0\<rparr>"
  have q: "cmd_queue ?t1 = cmd_queue t"
    by (simp add: record_command_def Let_def)
  have nr: "\<not> is_command_running ?t1"
    by (simp add: is_command_running_def CMD_STATE_READY_def CMD_STATE_RUNNING_def)
  have pq: "execute_command os lbe cmd (t, w) = process_command_queue os lbe (?t1, w1)"
    using st by (rule execute_command_drain)
  have tot: "\<exists>r. execute_command os lbe cmd (t, w) = Some r"
    using assms(11) by (rule execute_command_terminates)
  have cs: "(case get_from_queue (cmd_queue t) of
         None \<Rightarrow> execute_command os lbe cmd (t, w) = Some (Inr (?t1, w1))
       | Some (next_cmd, q) \<Rightarrow>
           count q = count (cmd_queue t) - 1 \<and>
           execute_command os lbe cmd (t, w) =
             execute_command os lbe next_cmd
               (?t1\<lparr>cmd_queue := q,
                   input := (if state q = QUEUE_NORMAL then (input ?t1)\<lparr>is_locked := 0\<rparr>
                             else input ?t1)\<rparr>, w1))"
  proof (cases "get_from_queue (cmd_queue t)")
    case None
    then have "is_queue_empty (cmd_queue t)" by (simp add: get_from_queue_None)
    then show ?thesis
      using None pq q by (simp add: process_command_queue_def)
  next
    case (Some a)
    obtain next_cmd q' where a: "a = (next_cmd, q')" by (cases a)
    from get_from_queue_count [OF Some [unfolded a]]
    have c: "count q' = count (cmd_queue t) - 1" "\<not> is_queue_empty (cmd_queue t)"
      by (simp_all add: is_queue_empty_def)
    have u: "unlock_after_dequeue q' ?t1 =
        ?t1\<lparr>cmd_queue := q',
            input := (if state q' = QUEUE_NORMAL then (input ?t1)\<lparr>is_locked := 0\<rparr>
                      else input ?t1)\<rparr>"
      by (simp add: unlock_after_dequeue_def Let_def)
    have "process_command_queue os lbe (?t1, w1) =
        execute_command os lbe next_cmd (unlock_after_dequeue q' ?t1, w1)"
      using nr c(2) q Some a by (simp add: process_command_queue_def)
    then show ?thesis
      using Some a c(1) pq u by simp
  qed
  show ?thesis
    using q pq tot cs by (intro exI [of _ ?t1]) simp
qed

lemma execute_cd_success:
  assumes "cmd_state t \<noteq> CMD_STATE_RUNNING" and "take 3 cmd = ''cd ''"
    and "os_chdir os (cd_target (os_getenv_HOME os w) cmd) w = (None, w1)"
  shows "execute_command os lbe cmd (t, w) =
     Some (Inr ((record_command cmd t)\<lparr>current_directory := os_getcwd os w1\<rparr>, w1))"
  using assms cd_not_special [OF assms(2)]
  by (subst execute_command.simps)
    (simp add: execute_step_def is_command_running_def returning_def change_directory_def Let_def)

lemma echo_hello_plain:
  "''echo hello'' \<noteq> []" "''echo hello'' \<noteq> ''stop''" "''echo hello'' \<noteq> ''manual''"
  "take 3 ''echo hello'' \<noteq> ''cd ''" "''echo hello'' \<noteq> ''cd''" "\<not> is_interactive ''echo hello''"
  by (simp_all add: is_interactive_def interactive_commands_def)

lemma echo_hello_spawn:
  "os_spawn sample_os ''echo hello'' w = (Spawned 4242 True [''hello'' @ [CHR 0x0A]] 0, w)"
  by (simp add: sample_os_def)

lemma queued_terminal_facts:
  "cmd_state queued_terminal \<noteq> CMD_STATE_RUNNING"
  "hist_wf (history queued_terminal)"
  "0 \<le> count (cmd_queue queued_terminal)"
  "is_locked (input queued_terminal) = 1"
  "get_from_queue (cmd_queue queued_terminal) =
     Some (''cd /tmp'', init_command_queue\<lparr>commands := (replicate 10 [])[0 := ''cd /tmp''],
       head := 1, tail := 1\<rparr>)"
  by (simp_all add: queued_terminal_def sample_terminal_def hist_wf_init add_to_queue_def
      get_from_queue_def is_queue_full_def is_queue_empty_def update_queue_state_def
      init_command_queue_def init_input_state_def strncpy_term_def MAX_CMD_INPUT_def
      COMMAND_QUEUE_SIZE_def CMD_STATE_READY_def CMD_STATE_RUNNING_def QUEUE_NORMAL_def
      signed_modulo_int_def Let_def)

theorem captured_run_drains_queue_witness:
  "cmd_state queued_terminal \<noteq> CMD_STATE_RUNNING \<and>
   \<not> is_interactive ''echo hello'' \<and>
   os_spawn sample_os ''echo hello'' sample_world0 =
     (Spawned 4242 True [''hello'' @ [CHR 0x0A]] 0, sample_world0) \<and>
   count (cmd_queue queued_terminal) = 1 \<and> is_locked (input queued_terminal) = 1 \<and>
   (\<exists>t'. execute_command sample_os 1 ''echo hello'' (queued_terminal, sample_world0) =
        Some (Inr (t', sample_world0\<lparr>sw_cwd := ''/tmp''\<rparr>)) \<and>
      cmd_state t' = CMD_STATE_READY \<and> current_process t' = 0 \<and>
      count (cmd_queue t') = 0 \<and> is_locked (input t') = 0 \<and>
      current_directory t' = ''/tmp'')"
proof -
  let ?q = "init_command_queue\<lparr>commands := (replicate 10 [])[0 := ''cd /tmp''],
       head := 1, tail := 1\<rparr>"
  have mem: "\<forall>n. os_realloc_ok sample_os n" by (simp add: sample_os_realloc)
  from captured_run_drains_queue [OF queued_terminal_facts(1) echo_hello_plain
      echo_hello_spawn [of sample_world0] queued_terminal_facts(2) mem queued_terminal_facts(3),
      where lbe = 1]
  obtain t1 where t1: "cmd_state t1 = CMD_STATE_READY" "current_process t1 = 0"
    and ex: "execute_command sample_os 1 ''echo hello'' (queued_terminal, sample_world0) =
        execute_command sample_os 1 ''cd /tmp''
          (t1\<lparr>cmd_queue := ?q,
              input := (if state ?q = QUEUE_NORMAL then (input t1)\<lparr>is_locked := 0\<rparr>
                        else input t1)\<rparr>, sample_world0)"
    unfolding queued_terminal_facts(5) by auto
  let ?t2 = "t1\<lparr>cmd_queue := ?q, input := (input t1)\<lparr>is_locked := 0\<rparr>\<rparr>"
  have n: "state ?q = QUEUE_NORMAL" by (simp add: init_command_queue_def)
  have r: "cmd_state ?t2 \<noteq> CMD_STATE_RUNNING"
    using t1 by (simp add: CMD_STATE_READY_def CMD_STATE_RUNNING_def)
  have ch: "os_chdir sample_os (cd_target (os_getenv_HOME sample_os sample_world0) ''cd /tmp'')
      sample_world0 = (None, sample_world0\<lparr>sw_cwd := ''/tmp''\<rparr>)"
    by (simp add: sample_os_def cd_target_def strncpy_term_def PATH_MAX_def trim_end_def Let_def)
  have "execute_command sample_os 1 ''cd /tmp'' (?t2, sample_world0) =
      Some (Inr ((record_command ''cd /tmp'' ?t2)
        \<lparr>current_directory := os_getcwd sample_os (sample_world0\<lparr>sw_cwd := ''/tmp''\<rparr>)\<rparr>,
        sample_world0\<lparr>sw_cwd := ''/tmp''\<rparr>))"
    using r _ ch by (rule execute_cd_success) simp
  then have "execute_command sample_os 1 ''echo hello'' (queued_terminal, sample_world0) =
      Some (Inr ((record_command ''cd /tmp'' ?t2)\<lparr>current_directory := ''/tmp''\<rparr>,
        sample_world0\<lparr>sw_cwd := ''/tmp''\<rparr>))"
    using ex n by (simp add: sample_os_def)
  moreover have "count (cmd_queue queued_terminal) = 1"
    by (simp add: queued_terminal_def add_to_queue_def is_queue_full_def update_queue_state_def
        init_command_queue_def COMMAND_QUEUE_SIZE_def Let_def)
  ultimately show ?thesis
    using t1 queued_terminal_facts(1,4) echo_hello_plain(6) echo_hello_spawn
    by (intro conjI exI [of _ "(record_command ''cd /tmp'' ?t2)\<lparr>current_directory := ''/tmp''\<rparr>"])
      (simp_all add: record_command_def add_to_cmd_history_def init_command_queue_def Let_def)
qed

lemma execute_captured_empty_queue:
  assumes "cmd_state t \<noteq> CMD_STATE_RUNNING"
    and "cmd \<noteq> []" "cmd \<noteq> ''stop''" "cmd \<noteq> ''manual''" "take 3 cmd \<noteq> ''cd ''"
      "cmd \<noteq> ''cd''" "\<not> is_interactive cmd"
    and "os_spawn os cmd w = (Spawned pid fdopen_ok reads status, w1)"
    and "hist_wf (history t)" and "\<forall>n. os_realloc_ok os n"
    and "is_queue_empty (cmd_queue t)"
  shows "\<exists>h. hist_wf h \<and>
      lines h = lines (history t) @
        [if lbe = 0 then collapse_line_breaks (snprintf 512 (os_clock os w @ '' '' @ cmd))
         else snprintf 512 (os_clock os w @ '' '' @ cmd)] @
        (if fdopen_ok then captured_lines reads else []) @ finish_lines status \<and>
      line_types h = line_types (history t) @ [HISTORY_TYPE_COMMAND] @
        replicate (length ((if fdopen_ok then captured_lines reads else []) @
          finish_lines status)) HISTORY_TYPE_NORMAL \<and>
      execute_command os lbe cmd (t, w) =
        Some (Inr ((record_command cmd t)
          \<lparr>history := h, cmd_state := CMD_STATE_READY, current_process := 0\<rparr>, w1))"
proof -
  from execute_step_captured [OF assms(1-10), of lbe]
  obtain h where h: "hist_wf h"
    "lines h = lines (history t) @
        [if lbe = 0 then collapse_line_breaks (snprintf 512 (os_clock os w @ '' '' @ cmd))
         else snprintf 512 (os_clock os w @ '' '' @ cmd)] @
        (if fdopen_ok then captured_lines reads else []) @ finish_lines status"
    "line_types h = line_types (history t) @ [HISTORY_TYPE_COMMAND] @
        replicate (length ((if fdopen_ok then captured_lines reads else []) @
          finish_lines status)) HISTORY_TYPE_NORMAL"
    and st: "execute_step os lbe cmd (t, w) =
        Inr (Drain ((record_command cmd t)
          \<lparr>history := h, cmd_state := CMD_STATE_READY, current_process := 0\<rparr>, w1))"
    by blast
  have "cmd_queue (record_command cmd t) = cmd_queue t"
    by (simp add: record_command_def Let_def)
  then have "execute_command os lbe cmd (t, w) =
        Some (Inr ((record_command cmd t)
          \<lparr>history := h, cmd_state := CMD_STATE_READY, current_process := 0\<rparr>, w1))"
    using execute_command_drain [OF st] assms(11)
    by (simp add: process_command_queue_def)
  then show ?thesis using h by (intro exI [of _ h]) simp
qed

lemma sample_terminal_ready:
  "cmd_state sample_terminal \<noteq> CMD_STATE_RUNNING" "is_queue_empty (cmd_queue sample_terminal)"
  "lines (history sample_terminal) = []" "line_types (history sample_terminal) = []"
  by (simp_all add: sample_terminal_def CMD_STATE_READY_def CMD_STATE_RUNNING_def
      is_queue_empty_def init_command_queue_def init_history_buffer_def)

lemma finish_lines_success: "finish_lines 0 = []"
  by (simp add: finish_lines_def WIFEXITED_def WEXITSTATUS_def WIFSIGNALED_def WTERMSIG_def)

text \<open>
  The part of C7 about \<^verbatim>\<open>echo hello\<close>, with the six bytes arriving in one read: the
  history gets the command echo and one normal line \<open>hello\<close>; the status, set to
  running by \<open>run_start\<close>, is ready at the end.
\<close>

lemma echo_hello_captured:
  "\<exists>t'. execute_command sample_os 1 ''echo hello'' (sample_terminal, sample_world0) =
       Some (Inr (t', sample_world0)) \<and>
     lines (history t') = [''[12:00:00] echo hello'', ''hello''] \<and>
     line_types (history t') = [HISTORY_TYPE_COMMAND, HISTORY_TYPE_NORMAL] \<and>
     cmd_state (run_start 4242 sample_terminal) = CMD_STATE_RUNNING \<and>
     cmd_state t' = CMD_STATE_READY \<and> current_process t' = 0"
proof -
  have mem: "\<forall>n. os_realloc_ok sample_os n" by (simp add: sample_os_realloc)
  have c: "captured_lines [''hello'' @ [CHR 0x0A]] = [''hello'']"
    by (simp add: chunk_lines_def strip_escape_codes_def strncpy_term_def)
  from execute_captured_empty_queue [OF sample_terminal_ready(1) echo_hello_plain
      echo_hello_spawn [of sample_world0] sample_terminal_hist_wf mem sample_terminal_ready(2),
      where lbe = 1]
  obtain h where h: "lines h = [''[12:00:00] echo hello'', ''hello'']"
    "line_types h = [HISTORY_TYPE_COMMAND, HISTORY_TYPE_NORMAL]"
    "execute_command sample_os 1 ''echo hello'' (sample_terminal, sample_world0) =
        Some (Inr ((record_command ''echo hello'' sample_terminal)
          \<lparr>history := h, cmd_state := CMD_STATE_READY, current_process := 0\<rparr>, sample_world0))"
    unfolding c finish_lines_success sample_terminal_ready(3,4)
    by (auto simp: snprintf_def sample_os_def)
  then show ?thesis
    by (intro exI [of _ "(record_command ''echo hello'' sample_terminal)
          \<lparr>history := h, cmd_state := CMD_STATE_READY, current_process := 0\<rparr>"])
      (simp add: run_start_def)
qed

text \<open>
  C7 at a failing input. The command writes \<^verbatim>\<open>hel\<close>, and a second later \<^verbatim>\<open>lo\<close> and
  a line feed, so the line \<^verbatim>\<open>hello\<close> arrives in two reads. Split at line feeds the
  output is the one line \<^verbatim>\<open>hello\<close>; the history gets the two lines \<^verbatim>\<open>hel\<close> and
  \<^verbatim>\<open>lo\<close> after the command echo.
\<close>

theorem capture_breaks_line_at_read_boundary:
  "os_spawn sample_os ''printf hel; sleep 1; echo lo'' sample_world0 =
     (Spawned 4243 True [''hel'', ''lo'' @ [CHR 0x0A]] 0, sample_world0) \<and>
   spec_output_lines [''hel'', ''lo'' @ [CHR 0x0A]] = [''hello''] \<and>
   map_option (map_sum id (\<lambda>s. lines (history (fst s))))
     (execute_command sample_os 1 ''printf hel; sleep 1; echo lo''
        (sample_terminal, sample_world0)) =
   Some (Inr [''[12:00:00] printf hel; sleep 1; echo lo'', ''hel'', ''lo''])"
proof -
  let ?cmd = "''printf hel; sleep 1; echo lo''"
  have mem: "\<forall>n. os_realloc_ok sample_os n" by (simp add: sample_os_realloc)
  have p: "?cmd \<noteq> []" "?cmd \<noteq> ''stop''" "?cmd \<noteq> ''manual''"
    "take 3 ?cmd \<noteq> ''cd ''" "?cmd \<noteq> ''cd''" "\<not> is_interactive ?cmd"
    by (simp_all add: is_interactive_def interactive_commands_def)
  have sp: "os_spawn sample_os ?cmd sample_world0 =
     (Spawned 4243 True [''hel'', ''lo'' @ [CHR 0x0A]] 0, sample_world0)"
    by (simp add: sample_os_def)
  have c: "captured_lines [''hel'', ''lo'' @ [CHR 0x0A]] = [''hel'', ''lo'']"
    by (simp add: chunk_lines_def strip_escape_codes_def strncpy_term_def)
  have s: "spec_output_lines [''hel'', ''lo'' @ [CHR 0x0A]] = [''hello'']"
    by (simp add: spec_output_lines_def strip_escape_codes_def)
  from execute_captured_empty_queue [OF sample_terminal_ready(1) p sp
      sample_terminal_hist_wf mem sample_terminal_ready(2), where lbe = 1]
  obtain h where "lines h = [''[12:00:00] printf hel; sleep 1; echo lo'', ''hel'', ''lo'']"
    "execute_command sample_os 1 ?cmd (sample_terminal, sample_world0) =
        Some (Inr ((record_command ?cmd sample_terminal)
          \<lparr>history := h, cmd_state := CMD_STATE_READY, current_process := 0\<rparr>, sample_world0))"
    unfolding c finish_lines_success sample_terminal_ready(3,4)
    by (auto simp: snprintf_def sample_os_def)
  then show ?thesis using sp s by simp
qed

lemma exit_code_msg_plain: "collapse_line_breaks (exit_code_msg r) = exit_code_msg r"
proof -
  have "CHR 0x0A \<notin> set (''Command returned with exit code: '' @ show_int r)"
    using show_int_no_newline by simp
  then have "CHR 0x0A \<notin> set (exit_code_msg r)"
    unfolding exit_code_msg_def snprintf_def by (meson in_set_takeD)
  then show ?thesis by (rule collapse_line_breaks_id)
qed

lemma interactive_notes_plain:
  "map (\<lambda>s. if lbe = 0 then collapse_line_breaks s else s)
     [''Starting interactive application...'',
      ''Note: Use Ctrl+Z to suspend and 'fg' to return''] =
   [''Starting interactive application...'',
    ''Note: Use Ctrl+Z to suspend and 'fg' to return'']"
  "collapse_line_breaks ''Returned to Parrot Terminal'' = ''Returned to Parrot Terminal''"
  by (simp_all add: collapse_line_breaks_def)

lemma run_interactive_always:
  assumes "os_system os cmd w = (result, w1)"
    and "hist_wf (history t)" and "\<forall>n. os_realloc_ok os n"
  shows "\<exists>h. hist_wf h \<and>
      lines h = lines (history t) @
        [''Starting interactive application...'',
         ''Note: Use Ctrl+Z to suspend and 'fg' to return''] @
        (if result \<noteq> 0 then [exit_code_msg result] else []) @
        [''Returned to Parrot Terminal''] \<and>
      line_types h = line_types (history t) @
        replicate (if result \<noteq> 0 then 4 else 3) HISTORY_TYPE_NORMAL \<and>
      run_interactive os lbe cmd (t, w) = Inr (t\<lparr>history := h\<rparr>, w1)"
proof -
  from log_lines_always [OF assms(2,3), of lbe
      "[''Starting interactive application...'',
        ''Note: Use Ctrl+Z to suspend and 'fg' to return'']" HISTORY_TYPE_NORMAL]
  obtain h1 where h1: "log_lines os lbe t
      [''Starting interactive application...'',
       ''Note: Use Ctrl+Z to suspend and 'fg' to return''] HISTORY_TYPE_NORMAL =
      Inr (t\<lparr>history := h1\<rparr>)" "hist_wf h1"
    "lines h1 = lines (history t) @
        [''Starting interactive application...'',
         ''Note: Use Ctrl+Z to suspend and 'fg' to return'']"
    "line_types h1 = line_types (history t) @ replicate 2 HISTORY_TYPE_NORMAL"
    unfolding interactive_notes_plain by (auto simp del: log_lines.simps simp: numeral_eq_Suc)
  obtain h2 where h2: "(if result \<noteq> 0
      then log_line os lbe (t\<lparr>history := h1\<rparr>) (exit_code_msg result) HISTORY_TYPE_NORMAL
      else Inr (t\<lparr>history := h1\<rparr>)) = Inr (t\<lparr>history := h2\<rparr>)" "hist_wf h2"
    "lines h2 = lines h1 @ (if result \<noteq> 0 then [exit_code_msg result] else [])"
    "line_types h2 = line_types h1 @ replicate (if result \<noteq> 0 then 1 else 0) HISTORY_TYPE_NORMAL"
  proof (cases "result \<noteq> 0")
    case True
    have "hist_wf (history (t\<lparr>history := h1\<rparr>))" using h1(2) by simp
    from log_line_always [OF this assms(3), of lbe "exit_code_msg result" HISTORY_TYPE_NORMAL]
    obtain h where "log_line os lbe (t\<lparr>history := h1\<rparr>) (exit_code_msg result)
        HISTORY_TYPE_NORMAL = Inr (t\<lparr>history := h\<rparr>)" "hist_wf h"
      "lines h = lines h1 @ [exit_code_msg result]"
      "line_types h = line_types h1 @ [HISTORY_TYPE_NORMAL]"
      by (auto simp: exit_code_msg_plain)
    then show ?thesis using True that [of h] by simp
  next
    case False
    then show ?thesis using that [of h1] h1(2) by simp
  qed
  have "hist_wf (history (t\<lparr>history := h2\<rparr>))" using h2(2) by simp
  from log_line_always [OF this assms(3), of lbe "''Returned to Parrot Terminal''"
      HISTORY_TYPE_NORMAL]
  obtain h where h: "log_line os lbe (t\<lparr>history := h2\<rparr>) ''Returned to Parrot Terminal''
      HISTORY_TYPE_NORMAL = Inr (t\<lparr>history := h\<rparr>)" "hist_wf h"
    "lines h = lines h2 @ [''Returned to Parrot Terminal'']"
    "line_types h = line_types h2 @ [HISTORY_TYPE_NORMAL]"
    by (auto simp: interactive_notes_plain)
  have "run_interactive os lbe cmd (t, w) = Inr (t\<lparr>history := h\<rparr>, w1)"
    using assms(1) h1(1) h2(1) h(1) by (simp add: run_interactive_def)
  then show ?thesis
    using h(2-) h2(3,4) h1(3,4)
    by (intro exI [of _ h]) (simp add: numeral_eq_Suc)
qed

lemma execute_interactive:
  assumes "cmd_state t \<noteq> CMD_STATE_RUNNING"
    and "cmd \<noteq> []" "cmd \<noteq> ''stop''" "cmd \<noteq> ''manual''" "take 3 cmd \<noteq> ''cd ''"
      "cmd \<noteq> ''cd''" "is_interactive cmd"
    and "os_system os cmd w = (result, w1)"
    and "hist_wf (history t)" and "\<forall>n. os_realloc_ok os n"
  shows "\<exists>h. hist_wf h \<and>
      lines h = lines (history t) @
        [if lbe = 0 then collapse_line_breaks (snprintf 512 (os_clock os w @ '' '' @ cmd))
         else snprintf 512 (os_clock os w @ '' '' @ cmd),
         ''Starting interactive application...'',
         ''Note: Use Ctrl+Z to suspend and 'fg' to return''] @
        (if result \<noteq> 0 then [exit_code_msg result] else []) @
        [''Returned to Parrot Terminal''] \<and>
      line_types h = line_types (history t) @ [HISTORY_TYPE_COMMAND] @
        replicate (if result \<noteq> 0 then 4 else 3) HISTORY_TYPE_NORMAL \<and>
      execute_command os lbe cmd (t, w) = Some (Inr ((record_command cmd t)\<lparr>history := h\<rparr>, w1))"
proof -
  let ?t0 = "record_command cmd t"
  let ?echo = "snprintf 512 (os_clock os w @ '' '' @ cmd)"
  have t0: "history ?t0 = history t"
    by (simp add: record_command_def Let_def)
  then have "hist_wf (history ?t0)" using assms(9) by simp
  from log_line_always [OF this assms(10), of lbe ?echo HISTORY_TYPE_COMMAND]
  obtain h1 where h1: "log_line os lbe ?t0 ?echo HISTORY_TYPE_COMMAND = Inr (?t0\<lparr>history := h1\<rparr>)"
    "hist_wf h1"
    "lines h1 = lines (history t) @ [if lbe = 0 then collapse_line_breaks ?echo else ?echo]"
    "line_types h1 = line_types (history t) @ [HISTORY_TYPE_COMMAND]"
    using t0 by auto
  have "hist_wf (history (?t0\<lparr>history := h1\<rparr>))" using h1(2) by simp
  from run_interactive_always [OF assms(8) this assms(10), of lbe]
  obtain h where h: "hist_wf h"
    "lines h = lines h1 @
        [''Starting interactive application...'',
         ''Note: Use Ctrl+Z to suspend and 'fg' to return''] @
        (if result \<noteq> 0 then [exit_code_msg result] else []) @
        [''Returned to Parrot Terminal'']"
    "line_types h = line_types h1 @ replicate (if result \<noteq> 0 then 4 else 3) HISTORY_TYPE_NORMAL"
    "run_interactive os lbe cmd (?t0\<lparr>history := h1\<rparr>, w) = Inr (?t0\<lparr>history := h\<rparr>, w1)"
    by auto
  have "execute_command os lbe cmd (t, w) = Some (Inr (?t0\<lparr>history := h\<rparr>, w1))"
    using assms(1-7) h1(1) h(4)
    by (subst execute_command.simps)
      (simp add: execute_step_def is_command_running_def returning_def Let_def)
  then show ?thesis
    using h(1-3) h1(3,4) by (intro exI [of _ h]) simp
qed

text \<open>
  C8 at a failing input. \<^verbatim>\<open>vim\<close> is on the allow-list and its output is not
  captured; the child exits with code 1, so \<^verbatim>\<open>system\<close> returns the wait status 256,
  of which \<open>WEXITSTATUS\<close> is 1. The line logged gives 256 as the exit code.
\<close>

theorem interactive_logs_raw_status:
  "is_interactive ''vim'' \<and>
   os_system sample_os ''vim'' sample_world0 = (exit_status 1, sample_world0) \<and>
   exit_status 1 = 256 \<and> WIFEXITED (exit_status 1) \<and> WEXITSTATUS (exit_status 1) = 1 \<and>
   map_option (map_sum id (\<lambda>s. lines (history (fst s))))
     (execute_command sample_os 1 ''vim'' (sample_terminal, sample_world0)) =
   Some (Inr [''[12:00:00] vim'',
              ''Starting interactive application...'',
              ''Note: Use Ctrl+Z to suspend and 'fg' to return'',
              ''Command returned with exit code: 256'',
              ''Returned to Parrot Terminal''])"
proof -
  have mem: "\<forall>n. os_realloc_ok sample_os n" by (simp add: sample_os_realloc)
  have p: "''vim'' \<noteq> []" "''vim'' \<noteq> ''stop''" "''vim'' \<noteq> ''manual''"
    "take 3 ''vim'' \<noteq> ''cd ''" "''vim'' \<noteq> ''cd''" "is_interactive ''vim''"
    by (simp_all add: is_interactive_def interactive_commands_def)
  have sy: "os_system sample_os ''vim'' sample_world0 = (256, sample_world0)"
    by (simp add: sample_os_def exit_status_def)
  have st: "exit_status 1 = 256" "WIFEXITED 256" "WEXITSTATUS 256 = 1"
    by (simp_all add: exit_status_def WIFEXITED_def WTERMSIG_def WEXITSTATUS_def)
  have m: "exit_code_msg 256 = ''Command returned with exit code: 256''"
    by (simp add: exit_code_msg_def snprintf_def show_int_def show_nat.simps)
  from execute_interactive [OF sample_terminal_ready(1) p sy sample_terminal_hist_wf mem,
      where lbe = 1]
  obtain h where "lines h = [''[12:00:00] vim'',
              ''Starting interactive application...'',
              ''Note: Use Ctrl+Z to suspend and 'fg' to return'',
              ''Command returned with exit code: 256'',
              ''Returned to Parrot Terminal'']"
    "execute_command sample_os 1 ''vim'' (sample_terminal, sample_world0) =
       Some (Inr ((record_command ''vim'' sample_terminal)\<lparr>history := h\<rparr>, sample_world0))"
    unfolding m sample_terminal_ready(3,4)
    by (auto simp: snprintf_def sample_os_def)
  then show ?thesis using p(6) sy st by simp
qed

text \<open>
  Within one read the code and the split at line feeds differ by the empty lines only:
  \<^verbatim>\<open>strtok\<close> gives the lines that are not empty.
\<close>

lemma strtok_all_spec_split:
  "strtok_all (CHR 0x0A) tok s = filter (\<lambda>l. l \<noteq> []) (spec_split_lines tok s)"
  by (induction s arbitrary: tok) simp_all

lemma chunk_lines_spec:
  "chunk_lines buffer =
     map (\<lambda>l. strip_escape_codes (take 1023 l))
       (filter (\<lambda>l. l \<noteq> []) (spec_split_lines [] (takeWhile (\<lambda>c. c \<noteq> CHR 0x00) buffer)))"
  by (simp add: chunk_lines_def strtok_all_spec_split strncpy_term_def)

text \<open>
  An escape sequence from the escape character to the next \<^verbatim>\<open>m\<close>, as the colour and
  style sequences are, is removed, and the text before it is kept.
\<close>

lemma strip_escape_loop_sequence:
  "CHR 0x1B \<notin> set p \<Longrightarrow> CHR ''m'' \<notin> set p \<Longrightarrow>
   strip_escape_loop True (p @ CHR ''m'' # b) = strip_escape_loop False b"
  by (induction p) auto

lemma strip_escape_codes_sequence:
  "CHR 0x1B \<notin> set a \<Longrightarrow> CHR 0x1B \<notin> set p \<Longrightarrow> CHR ''m'' \<notin> set p \<Longrightarrow>
   strip_escape_codes (a @ CHR 0x1B # p @ CHR ''m'' # b) = a @ strip_escape_codes b"
  unfolding strip_escape_codes_def
  by (induction a) (auto simp: strip_escape_loop_sequence)

lemma strip_escape_codes_red:
  "strip_escape_codes ([CHR 0x1B] @ ''[31mred'' @ [CHR 0x1B] @ ''[0m'') = ''red''"
  by (simp add: strip_escape_codes_def)

end
